theory Spec2Isabelle
  imports Main "HOL-Library.Char_ord" "HOL-Library.List_Lexorder"
begin

section \<open>Python values as the manifests deliver them\<close>

text \<open>
  The program is dynamically typed: every field of a manifest is whatever \<open>json.load\<close> or
  \<open>tomllib.loads\<close> produced. A value is \<open>None\<close>, a boolean, an integer, a string, a list
  or a dict with string keys (the keys of a JSON object or a TOML table). Floating-point
  numbers and TOML dates are left out of the value type. Strings are lists of 8-bit
  characters, each standing for the code point of that number.
\<close>

datatype pv =
    PNone
  | PBool bool
  | PInt int
  | PStr string
  | PList "pv list"
  | PDict "(string \<times> pv) list"

text \<open>The exceptions the program can raise in the code modelled here.\<close>

datatype error =
    AttributeError
  | TypeError
  | KeyError
  | IndexError
  | ReadError
  | ParseError

definition ebind :: "error + 'a \<Rightarrow> ('a \<Rightarrow> error + 'b) \<Rightarrow> error + 'b" where
  "ebind m f = (case m of Inl e \<Rightarrow> Inl e | Inr x \<Rightarrow> f x)"

text \<open>Truth value of a Python object, as \<open>if x\<close>, \<open>not x\<close>, \<open>x and y\<close>, \<open>x or y\<close> test it.\<close>

fun truthy :: "pv \<Rightarrow> bool" where
  "truthy PNone = False"
| "truthy (PBool b) = b"
| "truthy (PInt n) = (n \<noteq> 0)"
| "truthy (PStr s) = (s \<noteq> [])"
| "truthy (PList xs) = (xs \<noteq> [])"
| "truthy (PDict kvs) = (kvs \<noteq> [])"

definition py_or :: "pv \<Rightarrow> pv \<Rightarrow> pv" where
  "py_or a b = (if truthy a then a else b)"

text \<open>Only lists and dicts are unhashable among these values.\<close>

fun hashable :: "pv \<Rightarrow> bool" where
  "hashable (PList xs) = False"
| "hashable (PDict kvs) = False"
| "hashable v = True"

text \<open>
  Equality of hashable values as dict and set lookup sees it: \<open>True == 1\<close> and
  \<open>False == 0\<close>, everything else compares by value.
\<close>

fun py_eq :: "pv \<Rightarrow> pv \<Rightarrow> bool" where
  "py_eq (PBool b) (PInt n) = (n = (if b then 1 else 0))"
| "py_eq (PInt n) (PBool b) = (n = (if b then 1 else 0))"
| "py_eq a b = (a = b)"

text \<open>
  \<open>obj.get(key, default)\<close>: only a dict has \<open>get\<close>; an unhashable key raises; a key that
  is not a string is never found, the keys of a parsed table being strings.
\<close>

fun py_get :: "pv \<Rightarrow> pv \<Rightarrow> pv \<Rightarrow> error + pv" where
  "py_get (PDict kvs) (PStr k) dflt = Inr (case map_of kvs k of None \<Rightarrow> dflt | Some v \<Rightarrow> v)"
| "py_get (PDict kvs) (PList xs) dflt = Inl TypeError"
| "py_get (PDict kvs) (PDict ys) dflt = Inl TypeError"
| "py_get (PDict kvs) key dflt = Inr dflt"
| "py_get obj key dflt = Inl AttributeError"

text \<open>\<open>obj.keys()\<close>, in insertion order.\<close>

fun py_keys :: "pv \<Rightarrow> error + pv list" where
  "py_keys (PDict kvs) = Inr (map (\<lambda>kv. PStr (fst kv)) kvs)"
| "py_keys obj = Inl AttributeError"

text \<open>\<open>for x in obj\<close>: the elements of a list, the keys of a dict, the characters of a string.\<close>

fun py_iter :: "pv \<Rightarrow> error + pv list" where
  "py_iter (PList xs) = Inr xs"
| "py_iter (PDict kvs) = Inr (map (\<lambda>kv. PStr (fst kv)) kvs)"
| "py_iter (PStr s) = Inr (map (\<lambda>c. PStr [c]) s)"
| "py_iter obj = Inl TypeError"

text \<open>\<open>obj[0]\<close>.\<close>

fun py_index0 :: "pv \<Rightarrow> error + pv" where
  "py_index0 (PList []) = Inl IndexError"
| "py_index0 (PList (x # xs)) = Inr x"
| "py_index0 (PStr []) = Inl IndexError"
| "py_index0 (PStr (c # s)) = Inr (PStr [c])"
| "py_index0 (PDict kvs) = Inl KeyError"
| "py_index0 obj = Inl TypeError"

text \<open>\<open>isinstance(obj, list)\<close>\<close>

fun is_list :: "pv \<Rightarrow> bool" where
  "is_list (PList xs) = True"
| "is_list obj = False"

text \<open>
  A dict built by the program, keys in first-insertion order. \<open>d[k] = v\<close> on a key already
  present keeps the key object and its position and replaces the value.
\<close>

type_synonym 'v pydict = "(pv \<times> 'v) list"

fun pd_update :: "'v pydict \<Rightarrow> pv \<Rightarrow> 'v \<Rightarrow> 'v pydict" where
  "pd_update [] k v = [(k, v)]"
| "pd_update ((k', v') # d) k v =
     (if py_eq k' k then (k', v) # d else (k', v') # pd_update d k v)"

definition pd_set :: "'v pydict \<Rightarrow> pv \<Rightarrow> 'v \<Rightarrow> error + 'v pydict" where
  "pd_set d k v = (if hashable k then Inr (pd_update d k v) else Inl TypeError)"

fun pd_lookup :: "'v pydict \<Rightarrow> pv \<Rightarrow> 'v option" where
  "pd_lookup [] k = None"
| "pd_lookup ((k', v') # d) k = (if py_eq k' k then Some v' else pd_lookup d k)"

definition pd_keys :: "'v pydict \<Rightarrow> pv list" where
  "pd_keys d = map fst d"

definition pd_values :: "'v pydict \<Rightarrow> 'v list" where
  "pd_values d = map snd d"

text \<open>\<open>x in s\<close> for a set or the keys of a dict.\<close>

definition py_in :: "pv \<Rightarrow> pv list \<Rightarrow> bool" where
  "py_in x xs = list_ex (\<lambda>y. py_eq y x) xs"

section \<open>Strings\<close>

text \<open>
  A character is a code point below 256. On such strings \<open>str.lower()\<close> works character
  by character: the letters \<open>A\<close> to \<open>Z\<close> and the letters from U+00C0 to U+00DE, the
  multiplication sign U+00D7 excepted, move up by 32, and every other code point below 256
  is left as it is.
\<close>

definition lower_char :: "char \<Rightarrow> char" where
  "lower_char c =
     (case map_of
             (zip (''ABCDEFGHIJKLMNOPQRSTUVWXYZ'' @
                   [CHR 0xC0, CHR 0xC1, CHR 0xC2, CHR 0xC3, CHR 0xC4, CHR 0xC5, CHR 0xC6, CHR 0xC7,
                    CHR 0xC8, CHR 0xC9, CHR 0xCA, CHR 0xCB, CHR 0xCC, CHR 0xCD, CHR 0xCE, CHR 0xCF,
                    CHR 0xD0, CHR 0xD1, CHR 0xD2, CHR 0xD3, CHR 0xD4, CHR 0xD5, CHR 0xD6, CHR 0xD8,
                    CHR 0xD9, CHR 0xDA, CHR 0xDB, CHR 0xDC, CHR 0xDD, CHR 0xDE])
                  (''abcdefghijklmnopqrstuvwxyz'' @
                   [CHR 0xE0, CHR 0xE1, CHR 0xE2, CHR 0xE3, CHR 0xE4, CHR 0xE5, CHR 0xE6, CHR 0xE7,
                    CHR 0xE8, CHR 0xE9, CHR 0xEA, CHR 0xEB, CHR 0xEC, CHR 0xED, CHR 0xEE, CHR 0xEF,
                    CHR 0xF0, CHR 0xF1, CHR 0xF2, CHR 0xF3, CHR 0xF4, CHR 0xF5, CHR 0xF6, CHR 0xF8,
                    CHR 0xF9, CHR 0xFA, CHR 0xFB, CHR 0xFC, CHR 0xFD, CHR 0xFE])) c of
        None \<Rightarrow> c
      | Some l \<Rightarrow> l)"

definition lower :: "string \<Rightarrow> string" where
  "lower s = map lower_char s"

definition startswith :: "string \<Rightarrow> string \<Rightarrow> bool" where
  "startswith s p = (take (length p) s = p)"

definition endswith :: "string \<Rightarrow> string \<Rightarrow> bool" where
  "endswith s p = (length p \<le> length s \<and> drop (length s - length p) s = p)"

text \<open>\<open>p in s\<close> for two strings: \<open>p\<close> occurs in \<open>s\<close> as a contiguous substring.\<close>

fun contains :: "string \<Rightarrow> string \<Rightarrow> bool" where
  "contains [] p = (p = [])"
| "contains (c # s) p = (startswith (c # s) p \<or> contains s p)"

section \<open>Archives\<close>

text \<open>
  \<open>zipfile\<close>, \<open>json\<close> and \<open>tomllib\<close> are libraries outside the repository. A byte string is
  represented by what each of them makes of it: the value \<open>json.load\<close> returns, the value
  \<open>tomllib.loads\<close> returns after decoding as UTF-8, and the archive \<open>zipfile.ZipFile\<close>
  opens, each \<open>None\<close> when the library raises. An archive is the list of its entries in
  \<open>namelist()\<close> order, each with its bytes, \<open>None\<close> for an entry that cannot be read.
\<close>

datatype blob =
  Blob (as_json: "pv option") (as_toml: "pv option") (as_zip: "(string \<times> blob option) list option")

type_synonym zipfile = "(string \<times> blob option) list"

definition namelist :: "zipfile \<Rightarrow> string list" where
  "namelist jar = map fst jar"

text \<open>\<open>jar.read(name)\<close> and \<open>jar.open(name)\<close>: of several entries with one name the last is read.\<close>

definition zip_read :: "zipfile \<Rightarrow> string \<Rightarrow> error + blob" where
  "zip_read jar name =
     (case map_of (rev jar) name of
        None \<Rightarrow> Inl KeyError
      | Some None \<Rightarrow> Inl ReadError
      | Some (Some b) \<Rightarrow> Inr b)"

definition json_load :: "zipfile \<Rightarrow> string \<Rightarrow> error + pv" where
  "json_load jar name =
     ebind (zip_read jar name) (\<lambda>b. case as_json b of None \<Rightarrow> Inl ParseError | Some v \<Rightarrow> Inr v)"

definition toml_load :: "zipfile \<Rightarrow> string \<Rightarrow> error + pv" where
  "toml_load jar name =
     ebind (zip_read jar name) (\<lambda>b. case as_toml b of None \<Rightarrow> Inl ParseError | Some v \<Rightarrow> Inr v)"

text \<open>The files on disk: what is stored at a path, if anything.\<close>

type_synonym path = string
type_synonym fs = "path \<Rightarrow> blob option"

definition open_path :: "fs \<Rightarrow> path \<Rightarrow> zipfile option" where
  "open_path files p = (case files p of None \<Rightarrow> None | Some b \<Rightarrow> as_zip b)"

section \<open>Mod descriptors\<close>

text \<open>
  The dict \<open>{"id": .., "name": .., "depends": .., "_path": ..}\<close>. \<open>depends\<close> maps a dependency
  to the value stored under \<open>"required"\<close> in its one-key dict. \<open>d_path\<close> is \<open>None\<close> for a
  descriptor without the \<open>"_path"\<close> key.
\<close>

record descriptor =
  d_id :: pv
  d_name :: pv
  d_depends :: "pv pydict"
  d_path :: "path option"

text \<open>\<open>for dep in ks: depends[dep] = {"required": r}\<close>\<close>

fun add_all :: "pv list \<Rightarrow> pv \<Rightarrow> pv pydict \<Rightarrow> error + pv pydict" where
  "add_all [] r depends = Inr depends"
| "add_all (dep # ks) r depends = ebind (pd_set depends dep r) (add_all ks r)"

text \<open>The loop over \<open>depArr\<close> of the \<open>mods.toml\<close> schema.\<close>

fun add_forge :: "pv list \<Rightarrow> pv pydict \<Rightarrow> error + pv pydict" where
  "add_forge [] depends = Inr depends"
| "add_forge (dep # deps) depends =
     ebind (py_get dep (PStr ''modId'') PNone) (\<lambda>dep_id.
     ebind (py_get dep (PStr ''mandatory'') (PBool False)) (\<lambda>required.
     ebind (pd_set depends dep_id required) (add_forge deps)))"

text \<open>
  \<open>if present: try: body except: pass\<close> followed by \<open>rest\<close>. The body either raises, and the
  exception is swallowed, or returns a value from the function.
\<close>

definition attempt :: "bool \<Rightarrow> (error + 'a) \<Rightarrow> 'a \<Rightarrow> 'a" where
  "attempt present body rest =
     (if present then (case body of Inl e \<Rightarrow> rest | Inr r \<Rightarrow> r) else rest)"

section \<open>Extract metadata from jar bytes\<close>

text \<open>
  The three \<open>try\<close> blocks of \<open>extract_metadata_from_bytes\<close>. \<open>Inl\<close> is an exception raised
  inside the block, \<open>Inr r\<close> is the value the function returns from there. The last block
  returns nothing when the document is not a non-empty list: control reaches the final
  \<open>return None\<close>, which is the \<open>Inr None\<close> of \<open>bytes_mcmod\<close>.
\<close>

definition bytes_fabric :: "zipfile \<Rightarrow> error + descriptor option" where
  "bytes_fabric jar =
     ebind (json_load jar ''fabric.mod.json'') (\<lambda>data.
     ebind (py_get data (PStr ''id'') PNone) (\<lambda>mod_id.
     ebind (py_get data (PStr ''name'') PNone) (\<lambda>nm.
     ebind (ebind (py_get data (PStr ''depends'') (PDict [])) py_keys) (\<lambda>hard.
     ebind (add_all hard (PBool True) []) (\<lambda>depends.
     ebind (ebind (py_get data (PStr ''recommends'') (PDict [])) py_keys) (\<lambda>recommended.
     ebind (add_all recommended (PBool False) depends) (\<lambda>depends.
     ebind (ebind (py_get data (PStr ''suggests'') (PDict [])) py_keys) (\<lambda>suggested.
     ebind (add_all suggested (PBool False) depends) (\<lambda>depends.
     Inr (Some \<lparr>d_id = mod_id, d_name = py_or nm mod_id, d_depends = depends,
                d_path = None\<rparr>))))))))))"

definition bytes_forge :: "zipfile \<Rightarrow> error + descriptor option" where
  "bytes_forge jar =
     ebind (toml_load jar ''META-INF/mods.toml'') (\<lambda>data.
     ebind (py_get data (PStr ''mods'') (PList [])) (\<lambda>mod_entry.
     if \<not> truthy mod_entry then Inr None
     else
       ebind (py_index0 mod_entry) (\<lambda>first.
       ebind (py_get first (PStr ''modId'') PNone) (\<lambda>mod_id.
       ebind (py_get first (PStr ''displayName'') PNone) (\<lambda>nm.
       ebind (py_get data (PStr ''dependencies'') (PDict [])) (\<lambda>table.
       ebind (py_get table mod_id (PList [])) (\<lambda>depArr.
       ebind (py_iter depArr) (\<lambda>deps.
       ebind (add_forge deps []) (\<lambda>depends.
       Inr (Some \<lparr>d_id = mod_id, d_name = py_or nm mod_id, d_depends = depends,
                  d_path = None\<rparr>))))))))))"

definition bytes_mcmod :: "zipfile \<Rightarrow> error + descriptor option" where
  "bytes_mcmod jar =
     ebind (json_load jar ''mcmod.info'') (\<lambda>data.
     if is_list data \<and> truthy data then
       ebind (py_index0 data) (\<lambda>entry.
       ebind (py_get entry (PStr ''modid'') PNone) (\<lambda>mod_id.
       ebind (py_get entry (PStr ''name'') PNone) (\<lambda>nm.
       ebind (ebind (py_get entry (PStr ''dependencies'') (PList [])) py_iter) (\<lambda>general.
       ebind (add_all general (PBool True) []) (\<lambda>depends.
       ebind (ebind (py_get entry (PStr ''requiredMods'') (PList [])) py_iter) (\<lambda>req.
       ebind (add_all req (PBool True) depends) (\<lambda>depends.
       Inr (Some \<lparr>d_id = mod_id, d_name = py_or nm mod_id, d_depends = depends,
                  d_path = None\<rparr>))))))))
     else Inr None)"

definition extract_metadata_from_bytes :: "blob \<Rightarrow> descriptor option" where
  "extract_metadata_from_bytes raw_bytes =
     (case as_zip raw_bytes of
        None \<Rightarrow> None
      | Some jar \<Rightarrow>
          attempt (''fabric.mod.json'' \<in> set (namelist jar)) (bytes_fabric jar)
         (attempt (''META-INF/mods.toml'' \<in> set (namelist jar)) (bytes_forge jar)
         (attempt (''mcmod.info'' \<in> set (namelist jar)) (bytes_mcmod jar)
          None)))"

section \<open>Extract metadata from a single mod jar\<close>

text \<open>The same three blocks in \<open>extract_mod_metadata\<close>, which also records \<open>jar_path\<close>.\<close>

definition path_fabric :: "zipfile \<Rightarrow> path \<Rightarrow> error + descriptor option" where
  "path_fabric jar jar_path =
     ebind (json_load jar ''fabric.mod.json'') (\<lambda>data.
     ebind (py_get data (PStr ''id'') PNone) (\<lambda>mod_id.
     ebind (py_get data (PStr ''name'') PNone) (\<lambda>nm.
     ebind (ebind (py_get data (PStr ''depends'') (PDict [])) py_keys) (\<lambda>hard.
     ebind (add_all hard (PBool True) []) (\<lambda>depends.
     ebind (ebind (py_get data (PStr ''recommends'') (PDict [])) py_keys) (\<lambda>recommended.
     ebind (add_all recommended (PBool False) depends) (\<lambda>depends.
     ebind (ebind (py_get data (PStr ''suggests'') (PDict [])) py_keys) (\<lambda>suggested.
     ebind (add_all suggested (PBool False) depends) (\<lambda>depends.
     Inr (Some \<lparr>d_id = mod_id, d_name = py_or nm mod_id, d_depends = depends,
                d_path = Some jar_path\<rparr>))))))))))"

definition path_forge :: "zipfile \<Rightarrow> path \<Rightarrow> error + descriptor option" where
  "path_forge jar jar_path =
     ebind (toml_load jar ''META-INF/mods.toml'') (\<lambda>data.
     ebind (py_get data (PStr ''mods'') (PList [])) (\<lambda>mod_entry.
     if \<not> truthy mod_entry then Inr None
     else
       ebind (py_index0 mod_entry) (\<lambda>first.
       ebind (py_get first (PStr ''modId'') PNone) (\<lambda>mod_id.
       ebind (py_get first (PStr ''displayName'') PNone) (\<lambda>nm.
       ebind (py_get data (PStr ''dependencies'') (PDict [])) (\<lambda>table.
       ebind (py_get table mod_id (PList [])) (\<lambda>depArr.
       ebind (py_iter depArr) (\<lambda>deps.
       ebind (add_forge deps []) (\<lambda>depends.
       Inr (Some \<lparr>d_id = mod_id, d_name = py_or nm mod_id, d_depends = depends,
                  d_path = Some jar_path\<rparr>))))))))))"

definition path_mcmod :: "zipfile \<Rightarrow> path \<Rightarrow> error + descriptor option" where
  "path_mcmod jar jar_path =
     ebind (json_load jar ''mcmod.info'') (\<lambda>data.
     if is_list data \<and> truthy data then
       ebind (py_index0 data) (\<lambda>entry.
       ebind (py_get entry (PStr ''modid'') PNone) (\<lambda>mod_id.
       ebind (py_get entry (PStr ''name'') PNone) (\<lambda>nm.
       ebind (ebind (py_get entry (PStr ''dependencies'') (PList [])) py_iter) (\<lambda>general.
       ebind (add_all general (PBool True) []) (\<lambda>depends.
       ebind (ebind (py_get entry (PStr ''requiredMods'') (PList [])) py_iter) (\<lambda>req.
       ebind (add_all req (PBool True) depends) (\<lambda>depends.
       Inr (Some \<lparr>d_id = mod_id, d_name = py_or nm mod_id, d_depends = depends,
                  d_path = Some jar_path\<rparr>))))))))
     else Inr None)"

definition extract_mod_metadata :: "fs \<Rightarrow> path \<Rightarrow> descriptor option" where
  "extract_mod_metadata files jar_path =
     (case open_path files jar_path of
        None \<Rightarrow> None
      | Some jar \<Rightarrow>
          attempt (''fabric.mod.json'' \<in> set (namelist jar)) (path_fabric jar jar_path)
         (attempt (''META-INF/mods.toml'' \<in> set (namelist jar)) (path_forge jar jar_path)
         (attempt (''mcmod.info'' \<in> set (namelist jar)) (path_mcmod jar jar_path)
          None)))"

section \<open>Mod ids to exclude from results\<close>

definition IGNORED_MODS :: "string list" where
  "IGNORED_MODS =
     [''minecraft'', ''forge'', ''neoforge'', ''fabricloader'', ''fabric-loader'', ''fabric'',
      ''fabric-api'', ''fabric_api'', ''fabric-resource-loader-v0'', ''fabric-screen-api-v1'',
      ''fabric-networking-api-v1'', ''fabric-lifecycle-events-v1'', ''fabric-renderer-api-v1'',
      ''fabric-registry-sync-v0'', ''fabric-api-base'', ''fabric-events-interaction-v0'',
      ''fabric-permissions-api-v0'', ''fabric-command-api-v2'', ''fabric-kotlin'', ''java'']"

text \<open>
  \<open>modid and modid.lower() in IGNORED_MODS\<close>. The callers only test the result for truth,
  so the model returns its truth value: a falsy \<open>modid\<close> is returned as it is and is falsy;
  a truthy one must have \<open>lower\<close>.
\<close>

definition should_ignore :: "pv \<Rightarrow> error + bool" where
  "should_ignore modid =
     (if \<not> truthy modid then Inr False
      else (case modid of
              PStr s \<Rightarrow> Inr (lower s \<in> set IGNORED_MODS)
            | _ \<Rightarrow> Inl AttributeError))"

section \<open>Detect whether a dependency is embedded inside a jar\<close>

text \<open>
  The body of the \<open>try\<close> of heuristic 1 for one entry: read it, extract its metadata and
  evaluate \<open>meta and meta["id"] and meta["id"].lower() == dep\<close>.
\<close>

definition nested_probe :: "zipfile \<Rightarrow> string \<Rightarrow> string \<Rightarrow> error + bool" where
  "nested_probe jar name dep =
     ebind (zip_read jar name) (\<lambda>raw.
       case extract_metadata_from_bytes raw of
         None \<Rightarrow> Inr False
       | Some meta \<Rightarrow>
           if \<not> truthy (d_id meta) then Inr False
           else (case d_id meta of
                   PStr s \<Rightarrow> Inr (lower s = dep)
                 | _ \<Rightarrow> Inl AttributeError))"

definition embedded_prefixes :: "string list" where
  "embedded_prefixes = [''META-INF/jars/'', ''META-INF/jarjar/'']"

definition embedded_jars :: "zipfile \<Rightarrow> string \<Rightarrow> bool" where
  "embedded_jars jar dep =
     list_ex (\<lambda>prefix.
       list_ex (\<lambda>name.
         startswith name prefix \<and> endswith name ''.jar'' \<and>
         (case nested_probe jar name dep of Inl e \<Rightarrow> False | Inr hit \<Rightarrow> hit))
       (namelist jar))
     embedded_prefixes"

definition namespace_folders :: "zipfile \<Rightarrow> string \<Rightarrow> bool" where
  "namespace_folders jar dep =
     list_ex (\<lambda>ns. list_ex (\<lambda>p. startswith p ns) (namelist jar))
       [''assets/'' @ dep @ ''/'', ''data/'' @ dep @ ''/'']"

definition class_packages :: "zipfile \<Rightarrow> string \<Rightarrow> bool" where
  "class_packages jar dep =
     list_ex (\<lambda>name.
       let n = lower name in
       list_ex (\<lambda>pref. startswith n pref)
         [dep @ ''/'', ''com/'' @ dep @ ''/'', ''net/'' @ dep @ ''/'', ''io/'' @ dep @ ''/''] \<and>
       endswith n ''.class'')
     (namelist jar)"

text \<open>\<open>for entry in data.get("jars", []): if dep in entry.get("id", "").lower(): return True\<close>\<close>

fun jars_loop :: "pv list \<Rightarrow> string \<Rightarrow> error + bool" where
  "jars_loop [] dep = Inr False"
| "jars_loop (entry # entries) dep =
     ebind (py_get entry (PStr ''id'') (PStr [])) (\<lambda>v.
       case v of
         PStr s \<Rightarrow> if contains (lower s) dep then Inr True else jars_loop entries dep
       | _ \<Rightarrow> Inl AttributeError)"

definition fabric_jars :: "zipfile \<Rightarrow> string \<Rightarrow> bool" where
  "fabric_jars jar dep =
     (if ''fabric.mod.json'' \<in> set (namelist jar) then
        (case ebind (json_load jar ''fabric.mod.json'') (\<lambda>data.
               ebind (ebind (py_get data (PStr ''jars'') (PList [])) py_iter) (\<lambda>entries.
               jars_loop entries dep)) of
           Inl e \<Rightarrow> False
         | Inr hit \<Rightarrow> hit)
      else False)"

text \<open>\<open>dep_id.lower()\<close> comes first and is outside every \<open>try\<close>.\<close>

definition is_dependency_embedded :: "fs \<Rightarrow> path \<Rightarrow> pv \<Rightarrow> error + bool" where
  "is_dependency_embedded files jar_path dep_id =
     (case dep_id of
        PStr s \<Rightarrow>
          (let dep = lower s in
           case open_path files jar_path of
             None \<Rightarrow> Inr False
           | Some jar \<Rightarrow>
               Inr (if embedded_jars jar dep then True
                    else if namespace_folders jar dep then True
                    else if class_packages jar dep then True
                    else if fabric_jars jar dep then True
                    else False))
      | _ \<Rightarrow> Inl AttributeError)"

section \<open>Scan folder of jar files\<close>

text \<open>
  \<open>{d: info["depends"][d] for d in info["depends"].keys() if not should_ignore(d)}\<close>:
  \<open>old\<close> is \<open>info["depends"]\<close>, the list holds the keys still to visit, \<open>new\<close> is the dict
  under construction.
\<close>

fun filter_depends :: "pv pydict \<Rightarrow> pv list \<Rightarrow> pv pydict \<Rightarrow> error + pv pydict" where
  "filter_depends old [] new = Inr new"
| "filter_depends old (d # ds) new =
     ebind (should_ignore d) (\<lambda>ignored.
       if ignored then filter_depends old ds new
       else (case pd_lookup old d of
               None \<Rightarrow> Inl KeyError
             | Some m \<Rightarrow> filter_depends old ds (pd_update new d m)))"

text \<open>The loop of \<open>scan_mod_folder\<close> over the paths \<open>folder.glob("*.jar")\<close> yields.\<close>

fun scan_loop :: "fs \<Rightarrow> path list \<Rightarrow> descriptor pydict \<Rightarrow> error + descriptor pydict" where
  "scan_loop files [] mods = Inr mods"
| "scan_loop files (jar # jars) mods =
     (case extract_mod_metadata files jar of
        None \<Rightarrow> scan_loop files jars mods
      | Some info \<Rightarrow>
          if \<not> truthy (d_id info) then scan_loop files jars mods
          else
            ebind (should_ignore (d_id info)) (\<lambda>ignored.
              if ignored then scan_loop files jars mods
              else
                ebind (filter_depends (d_depends info) (pd_keys (d_depends info)) []) (\<lambda>deps.
                ebind (pd_set mods (d_id info) (info\<lparr>d_depends := deps\<rparr>)) (\<lambda>mods'.
                scan_loop files jars mods'))))"

definition scan_mod_folder :: "fs \<Rightarrow> path list \<Rightarrow> error + descriptor pydict" where
  "scan_mod_folder files folder = scan_loop files folder []"

section \<open>Export dependency graph\<close>

text \<open>
  One element of \<open>out\<close>: a fixed line of text, or the line an f-string builds from the
  values given. \<open>Node mod_id name\<close> is the declaration of an installed mod, \<open>Edge\<close>,
  \<open>EdgeRed\<close> and \<open>EdgeYellow\<close> are the plain, the \<open>color="red"\<close> and the \<open>color="yellow"\<close>
  edge from a mod to a dependency, \<open>MissingRequired dep\<close> and \<open>MissingOptional dep\<close> are
  the declarations labelled \<open>(MISSING REQUIRED)\<close> and \<open>(optional missing)\<close>.
\<close>

datatype dot_line =
    Text string
  | Node pv pv
  | Edge pv pv
  | EdgeRed pv pv
  | EdgeYellow pv pv
  | MissingRequired pv
  | MissingOptional pv

text \<open>A Python set as the list of its elements, none equal to another.\<close>

definition set_add :: "pv list \<Rightarrow> pv \<Rightarrow> pv list" where
  "set_add s x = (if py_in x s then s else s @ [x])"

fun is_str :: "pv \<Rightarrow> bool" where
  "is_str (PStr s) = True"
| "is_str v = False"

fun str_of :: "pv \<Rightarrow> string" where
  "str_of (PStr s) = s"
| "str_of v = []"

fun is_num :: "pv \<Rightarrow> bool" where
  "is_num (PInt n) = True"
| "is_num (PBool b) = True"
| "is_num v = False"

fun num_of :: "pv \<Rightarrow> int" where
  "num_of (PInt n) = n"
| "num_of (PBool b) = (if b then 1 else 0)"
| "num_of v = 0"

text \<open>
  \<open>sorted(s)\<close> of a set of hashable values: strings sort by code point, numbers by value,
  a single element needs no comparison, and any other mixture raises.
\<close>

definition py_sorted :: "pv list \<Rightarrow> error + pv list" where
  "py_sorted s =
     (if list_all is_str s then Inr (map PStr (sort (map str_of s)))
      else if length s \<le> 1 then Inr s
      else if list_all is_num s then Inr (sort_key num_of s)
      else Inl TypeError)"

record graph_state =
  missing_required :: "pv list"
  missing_optional :: "pv list"
  out :: "dot_line list"

text \<open>
  \<open>for embedded_mod in mods.values(): if is_dependency_embedded(..): .. break\<close>: whether
  some probe succeeded.
\<close>

fun probe_all :: "fs \<Rightarrow> descriptor list \<Rightarrow> pv \<Rightarrow> error + bool" where
  "probe_all files [] dep = Inr False"
| "probe_all files (embedded_mod # others) dep =
     (case d_path embedded_mod of
        None \<Rightarrow> Inl KeyError
      | Some p \<Rightarrow>
          ebind (is_dependency_embedded files p dep) (\<lambda>hit.
            if hit then Inr True else probe_all files others dep))"

text \<open>The body of the inner loop over \<open>data["depends"].items()\<close>.\<close>

definition edge_step ::
  "fs \<Rightarrow> descriptor pydict \<Rightarrow> pv list \<Rightarrow> pv \<Rightarrow> pv \<times> pv \<Rightarrow> graph_state \<Rightarrow> error + graph_state"
where
  "edge_step files mods installed mod_id item st =
     (let dep = fst item; required = snd item in
      ebind (if \<not> py_in dep installed
             then ebind (probe_all files (pd_values mods) dep) (\<lambda>found. Inr (\<not> found))
             else Inr False) (\<lambda>dep_missing.
        if \<not> dep_missing then Inr (st\<lparr>out := out st @ [Edge mod_id dep]\<rparr>)
        else if truthy required then
          Inr (st\<lparr>missing_required := set_add (missing_required st) dep,
                  out := out st @ [EdgeRed mod_id dep]\<rparr>)
        else
          Inr (st\<lparr>missing_optional := set_add (missing_optional st) dep,
                  out := out st @ [EdgeYellow mod_id dep]\<rparr>)))"

fun depends_loop ::
  "fs \<Rightarrow> descriptor pydict \<Rightarrow> pv list \<Rightarrow> pv \<Rightarrow> pv pydict \<Rightarrow> graph_state \<Rightarrow> error + graph_state"
where
  "depends_loop files mods installed mod_id [] st = Inr st"
| "depends_loop files mods installed mod_id (item # items) st =
     ebind (edge_step files mods installed mod_id item st)
       (depends_loop files mods installed mod_id items)"

fun edges_loop ::
  "fs \<Rightarrow> descriptor pydict \<Rightarrow> pv list \<Rightarrow> descriptor pydict \<Rightarrow> graph_state \<Rightarrow> error + graph_state"
where
  "edges_loop files mods installed [] st = Inr st"
| "edges_loop files mods installed (entry # entries) st =
     ebind (depends_loop files mods installed (fst entry) (d_depends (snd entry)) st)
       (edges_loop files mods installed entries)"

text \<open>The three lines \<open>out\<close> starts with.\<close>

definition dot_header :: "dot_line list" where
  \<open>dot_header =
     [Text ''digraph mods {'',
      Text ''    rankdir="LR";'',
      Text ''    node [shape=box, style=filled, fillcolor="white"];'']\<close>

text \<open>\<open>export_to_dot\<close> returns the lines it joins and writes to \<open>output_path\<close>.\<close>

definition export_to_dot :: "fs \<Rightarrow> descriptor pydict \<Rightarrow> error + dot_line list" where
  "export_to_dot files mods =
     (let installed = pd_keys mods;
          nodes = map (\<lambda>entry. Node (fst entry) (d_name (snd entry))) mods
      in
      ebind (edges_loop files mods installed mods
               \<lparr>missing_required = [], missing_optional = [], out = dot_header @ nodes\<rparr>) (\<lambda>st.
      ebind (py_sorted (missing_required st)) (\<lambda>req.
      ebind (py_sorted (missing_optional st)) (\<lambda>opt.
      Inr (out st @ map MissingRequired req @ map MissingOptional opt @ [Text ''}''])))))"

section \<open>Example archives\<close>

text \<open>
  A Fabric mod \<open>a\<close> that depends on \<open>x\<close> and on the loader, and recommends \<open>y\<close>.
\<close>

definition manifest_a :: pv where
  "manifest_a =
     PDict [(''id'', PStr ''a''), (''name'', PStr ''Mod A''),
            (''depends'', PDict [(''x'', PStr ''*''), (''fabricloader'', PStr ''*'')]),
            (''recommends'', PDict [(''y'', PStr ''*'')])]"

definition zip_a :: zipfile where
  "zip_a = [(''fabric.mod.json'', Some (Blob (Some manifest_a) None None))]"

definition jar_a :: blob where
  "jar_a = Blob None None (Some zip_a)"

definition files_a :: fs where
  "files_a = [''mods/a.jar'' \<mapsto> jar_a]"

section \<open>Notions used to state the properties\<close>

text \<open>A descriptor option with the path recorded in the descriptor, if there is one.\<close>

definition with_path :: "path \<Rightarrow> descriptor option \<Rightarrow> descriptor option" where
  "with_path p r = map_option (\<lambda>d. d\<lparr>d_path := Some p\<rparr>) r"

text \<open>
  The depends dict the Fabric block builds from the keys of the three categories, as the
  three loops leave it.
\<close>

definition fabric_depends :: "string list \<Rightarrow> string list \<Rightarrow> string list \<Rightarrow> pv pydict" where
  "fabric_depends hard recommended suggested =
     fold (\<lambda>k d. pd_update d (PStr k) (PBool False)) suggested
       (fold (\<lambda>k d. pd_update d (PStr k) (PBool False)) recommended
         (fold (\<lambda>k d. pd_update d (PStr k) (PBool True)) hard []))"

text \<open>
  The specification's merge for Schema A: hard dependencies with required true, then
  recommended, then suggested with required false, a later category overriding an earlier
  one on the same key.
\<close>

definition merged_depends_spec ::
  "string list \<Rightarrow> string list \<Rightarrow> string list \<Rightarrow> string \<rightharpoonup> pv" where
  "merged_depends_spec hard recommended suggested =
     map_of (map (\<lambda>k. (k, PBool True)) hard)
       ++ map_of (map (\<lambda>k. (k, PBool False)) recommended)
       ++ map_of (map (\<lambda>k. (k, PBool False)) suggested)"

text \<open>An archive without the entries of a given name.\<close>

definition remove_entry :: "string \<Rightarrow> zipfile \<Rightarrow> zipfile" where
  "remove_entry n jar = filter (\<lambda>entry. fst entry \<noteq> n) jar"

text \<open>
  The dependency tables the loop of the \<open>mods.toml\<close> block visits: \<open>depArr\<close>, found under
  the \<open>modId\<close> of the first entry of \<open>mods\<close>.
\<close>

definition forge_entries :: "zipfile \<Rightarrow> error + pv list" where
  "forge_entries jar =
     ebind (toml_load jar ''META-INF/mods.toml'') (\<lambda>data.
     ebind (py_get data (PStr ''mods'') (PList [])) (\<lambda>mod_entry.
     ebind (py_index0 mod_entry) (\<lambda>first.
     ebind (py_get first (PStr ''modId'') PNone) (\<lambda>mod_id.
     ebind (py_get data (PStr ''dependencies'') (PDict [])) (\<lambda>table.
     ebind (py_get table mod_id (PList [])) py_iter)))))"

text \<open>
  The \<open>mandatory\<close> value, \<open>False\<close> when absent, of the last table in the list whose
  \<open>modId\<close> is the given key.
\<close>

fun last_mandatory :: "pv list \<Rightarrow> pv \<Rightarrow> pv option" where
  "last_mandatory [] k = None"
| "last_mandatory (dep # deps) k =
     (case last_mandatory deps k of
        Some r \<Rightarrow> Some r
      | None \<Rightarrow>
          (case (py_get dep (PStr ''modId'') PNone, py_get dep (PStr ''mandatory'') (PBool False)) of
             (Inr dep_id, Inr r) \<Rightarrow> if py_eq dep_id k then Some r else None
           | _ \<Rightarrow> None))"

text \<open>A Fabric mod that declares \<open>x\<close> both under \<open>depends\<close> and under \<open>recommends\<close>.\<close>

definition manifest_both :: pv where
  "manifest_both =
     PDict [(''id'', PStr ''both''),
            (''depends'', PDict [(''x'', PStr ''*'')]),
            (''recommends'', PDict [(''x'', PStr ''*'')])]"

definition zip_both :: zipfile where
  "zip_both = [(''fabric.mod.json'', Some (Blob (Some manifest_both) None None))]"

definition files_both :: fs where
  "files_both = [''mods/both.jar'' \<mapsto> Blob None None (Some zip_both)]"

text \<open>
  An archive with a \<open>fabric.mod.json\<close> that is not JSON and a valid \<open>mcmod.info\<close> whose
  name is the empty string; and the same archive without the \<open>fabric.mod.json\<close>.
\<close>

definition mcmod_legacy :: pv where
  "mcmod_legacy =
     PList [PDict [(''modid'', PStr ''legacy''), (''name'', PStr []),
                   (''dependencies'', PList [PStr ''lib''])]]"

definition zip_broken :: zipfile where
  "zip_broken =
     [(''fabric.mod.json'', Some (Blob None None None)),
      (''mcmod.info'', Some (Blob (Some mcmod_legacy) None None))]"

definition files_broken :: fs where
  "files_broken = [''mods/legacy.jar'' \<mapsto> Blob None None (Some zip_broken)]"

definition files_legacy :: fs where
  "files_legacy =
     [''mods/legacy.jar'' \<mapsto> Blob None None (Some (remove_entry ''fabric.mod.json'' zip_broken))]"

text \<open>
  A Fabric mod \<open>host\<close> that depends on \<open>libx\<close> and bundles three nested jars: one that
  cannot be read, one that is no archive, and one whose manifest declares the id \<open>LibX\<close>.
\<close>

definition manifest_host :: pv where
  "manifest_host =
     PDict [(''id'', PStr ''host''), (''name'', PStr ''Host''),
            (''depends'', PDict [(''libx'', PStr ''*'')])]"

definition nested_libx :: blob where
  "nested_libx =
     Blob None None
       (Some [(''fabric.mod.json'', Some (Blob (Some (PDict [(''id'', PStr ''LibX'')])) None None))])"

definition zip_host :: zipfile where
  "zip_host =
     [(''fabric.mod.json'', Some (Blob (Some manifest_host) None None)),
      (''META-INF/jars/bad.jar'', None),
      (''META-INF/jars/junk.jar'', Some (Blob None None None)),
      (''META-INF/jars/libx.jar'', Some nested_libx)]"

definition files_host :: fs where
  "files_host = [''mods/host.jar'' \<mapsto> Blob None None (Some zip_host)]"

text \<open>An identifier matches the exclusion set: it is a string whose lower case is a member.\<close>

definition excluded :: "pv \<Rightarrow> bool" where
  "excluded v = (case v of PStr s \<Rightarrow> lower s \<in> set IGNORED_MODS | _ \<Rightarrow> False)"

definition str_or_falsy :: "pv \<Rightarrow> bool" where
  "str_or_falsy v = (is_str v \<or> \<not> truthy v)"

text \<open>
  An archive the scanner can process without raising: \<open>should_ignore\<close> is only ever applied
  to strings and falsy values.
\<close>

definition scannable :: "fs \<Rightarrow> path \<Rightarrow> bool" where
  "scannable files jar =
     (case extract_mod_metadata files jar of
        None \<Rightarrow> True
      | Some info \<Rightarrow>
          str_or_falsy (d_id info) \<and> list_all str_or_falsy (pd_keys (d_depends info)))"

text \<open>
  An entry of a scanned registry: keyed by its own id, a non-empty string that is not
  excluded, and with no excluded dependency.
\<close>

definition clean_entry :: "pv \<times> descriptor \<Rightarrow> bool" where
  "clean_entry e \<longleftrightarrow>
     d_id (snd e) = fst e \<and>
     (\<exists>s. fst e = PStr s \<and> s \<noteq> [] \<and> lower s \<notin> set IGNORED_MODS) \<and>
     (\<forall>dep \<in> set (pd_keys (d_depends (snd e))). \<not> excluded dep)"

text \<open>
  A folder with the Fabric mod \<open>a\<close>, a \<open>mods.toml\<close> mod whose id \<open>Forge\<close> is excluded, the
  archive with the broken \<open>fabric.mod.json\<close>, and a path where no archive can be opened.
\<close>

definition toml_forge :: pv where
  "toml_forge = PDict [(''mods'', PList [PDict [(''modId'', PStr ''Forge'')]])]"

definition zip_forge :: zipfile where
  "zip_forge = [(''META-INF/mods.toml'', Some (Blob None (Some toml_forge) None))]"

definition files_scan :: fs where
  "files_scan =
     [''mods/a.jar'' \<mapsto> jar_a,
      ''mods/forge.jar'' \<mapsto> Blob None None (Some zip_forge),
      ''mods/legacy.jar'' \<mapsto> Blob None None (Some zip_broken)]"

definition folder_scan :: "path list" where
  "folder_scan = [''mods/a.jar'', ''mods/forge.jar'', ''mods/legacy.jar'', ''mods/notes.jar'']"

definition registry_scan :: "descriptor pydict" where
  "registry_scan =
     [(PStr ''a'',
       \<lparr>d_id = PStr ''a'', d_name = PStr ''Mod A'',
          d_depends = [(PStr ''x'', PBool True), (PStr ''y'', PBool False)],
          d_path = Some ''mods/a.jar''\<rparr>),
      (PStr ''legacy'',
       \<lparr>d_id = PStr ''legacy'', d_name = PStr ''legacy'',
          d_depends = [(PStr ''lib'', PBool True)], d_path = Some ''mods/legacy.jar''\<rparr>)]"

section \<open>The specification of the graph\<close>

text \<open>
  The registries the graph builder is specified for: every descriptor carries its source
  path and every dependency identifier is a string.
\<close>

definition well_typed :: "descriptor pydict \<Rightarrow> bool" where
  "well_typed mods =
     list_all (\<lambda>entry. d_path (snd entry) \<noteq> None \<and>
                        list_all (\<lambda>item. is_str (fst item)) (d_depends (snd entry))) mods"

text \<open>
  The specification's classification of a dependency edge. A dependency is satisfied when
  its identifier is a key of the registry (\<open>dep in mods\<close>) or the probe of some registered
  mod's archive returns true.
\<close>

datatype status = Satisfied | Missing_required | Missing_optional

definition satisfied :: "fs \<Rightarrow> descriptor pydict \<Rightarrow> pv \<Rightarrow> bool" where
  "satisfied files mods dep \<longleftrightarrow>
     py_in dep (pd_keys mods) \<or>
     list_ex (\<lambda>m. case d_path m of
                     None \<Rightarrow> False
                   | Some p \<Rightarrow> is_dependency_embedded files p dep = Inr True)
       (pd_values mods)"

definition edge_status :: "fs \<Rightarrow> descriptor pydict \<Rightarrow> pv \<times> pv \<Rightarrow> status" where
  "edge_status files mods item =
     (if satisfied files mods (fst item) then Satisfied
      else if truthy (snd item) then Missing_required
      else Missing_optional)"

fun edge_line :: "pv \<Rightarrow> pv \<Rightarrow> status \<Rightarrow> dot_line" where
  "edge_line mod_id dep Satisfied = Edge mod_id dep"
| "edge_line mod_id dep Missing_required = EdgeRed mod_id dep"
| "edge_line mod_id dep Missing_optional = EdgeYellow mod_id dep"

text \<open>The (mod, dependency item) pairs in the order the two nested loops visit them.\<close>

definition all_items :: "descriptor pydict \<Rightarrow> (pv \<times> pv \<times> pv) list" where
  "all_items mods =
     concat (map (\<lambda>entry. map (\<lambda>item. (fst entry, item)) (d_depends (snd entry))) mods)"

definition edges_spec :: "fs \<Rightarrow> descriptor pydict \<Rightarrow> dot_line list" where
  "edges_spec files mods =
     map (\<lambda>e. edge_line (fst e) (fst (snd e)) (edge_status files mods (snd e))) (all_items mods)"

fun is_edge :: "dot_line \<Rightarrow> bool" where
  "is_edge (Edge m d) = True"
| "is_edge (EdgeRed m d) = True"
| "is_edge (EdgeYellow m d) = True"
| "is_edge l = False"

text \<open>What one pass of the inner loop body does to the state when nothing raises.\<close>

definition record_edge ::
  "fs \<Rightarrow> descriptor pydict \<Rightarrow> pv \<times> pv \<times> pv \<Rightarrow> graph_state \<Rightarrow> graph_state" where
  "record_edge files mods e st =
     (case edge_status files mods (snd e) of
        Satisfied \<Rightarrow> st\<lparr>out := out st @ [Edge (fst e) (fst (snd e))]\<rparr>
      | Missing_required \<Rightarrow>
          st\<lparr>missing_required := set_add (missing_required st) (fst (snd e)),
             out := out st @ [EdgeRed (fst e) (fst (snd e))]\<rparr>
      | Missing_optional \<Rightarrow>
          st\<lparr>missing_optional := set_add (missing_optional st) (fst (snd e)),
             out := out st @ [EdgeYellow (fst e) (fst (snd e))]\<rparr>)"

text \<open>The identifiers of the given status, as the set the loops accumulate.\<close>

definition missing_ids :: "fs \<Rightarrow> descriptor pydict \<Rightarrow> status \<Rightarrow> pv list" where
  "missing_ids files mods s =
     fold (\<lambda>dep acc. set_add acc dep)
       (map (\<lambda>e. fst (snd e)) (filter (\<lambda>e. edge_status files mods (snd e) = s) (all_items mods)))
       []"

text \<open>
  Two Fabric mods: \<open>p\<close> declares \<open>x\<close> under \<open>depends\<close>, \<open>q\<close> declares it under
  \<open>recommends\<close>; no archive provides or bundles \<open>x\<close>.
\<close>

definition zip_p :: zipfile where
  "zip_p =
     [(''fabric.mod.json'',
       Some (Blob (Some (PDict [(''id'', PStr ''p''), (''depends'', PDict [(''x'', PStr ''*'')])]))
               None None))]"

definition zip_q :: zipfile where
  "zip_q =
     [(''fabric.mod.json'',
       Some (Blob (Some (PDict [(''id'', PStr ''q''), (''recommends'', PDict [(''x'', PStr ''*'')])]))
               None None))]"

definition files_two :: fs where
  "files_two =
     [''mods/p.jar'' \<mapsto> Blob None None (Some zip_p),
      ''mods/q.jar'' \<mapsto> Blob None None (Some zip_q)]"

definition registry_two :: "descriptor pydict" where
  "registry_two =
     [(PStr ''p'', \<lparr>d_id = PStr ''p'', d_name = PStr ''p'',
                    d_depends = [(PStr ''x'', PBool True)], d_path = Some ''mods/p.jar''\<rparr>),
      (PStr ''q'', \<lparr>d_id = PStr ''q'', d_name = PStr ''q'',
                    d_depends = [(PStr ''x'', PBool False)], d_path = Some ''mods/q.jar''\<rparr>)]"

text \<open>
  The mod \<open>host\<close> with four dependencies: \<open>libx\<close>, bundled in its own archive; \<open>a\<close>,
  installed; \<open>gone\<close>, required and nowhere; \<open>maybe\<close>, optional and nowhere.
\<close>

definition files_graph :: fs where
  "files_graph =
     [''mods/host.jar'' \<mapsto> Blob None None (Some zip_host),
      ''mods/a.jar'' \<mapsto> jar_a]"

definition registry_graph :: "descriptor pydict" where
  "registry_graph =
     [(PStr ''host'',
       \<lparr>d_id = PStr ''host'', d_name = PStr ''Host'',
          d_depends = [(PStr ''libx'', PBool True), (PStr ''a'', PBool True),
                       (PStr ''gone'', PBool True), (PStr ''maybe'', PBool False)],
          d_path = Some ''mods/host.jar''\<rparr>),
      (PStr ''a'',
       \<lparr>d_id = PStr ''a'', d_name = PStr ''Mod A'', d_depends = [],
          d_path = Some ''mods/a.jar''\<rparr>)]"

text \<open>
  An \<open>mcmod.info\<close> mod whose dependency list holds \<open>null\<close>, and the registry the scanner
  builds from it: \<open>should_ignore(None)\<close> is falsy, so the key \<open>None\<close> stays.
\<close>

definition zip_null :: zipfile where
  "zip_null =
     [(''mcmod.info'',
       Some (Blob (Some (PList [PDict [(''modid'', PStr ''nk''),
                                       (''dependencies'', PList [PNone])]]))
               None None))]"

definition files_null :: fs where
  "files_null = [''mods/nk.jar'' \<mapsto> Blob None None (Some zip_null)]"

definition registry_null :: "descriptor pydict" where
  "registry_null =
     [(PStr ''nk'', \<lparr>d_id = PStr ''nk'', d_name = PStr ''nk'',
                     d_depends = [(PNone, PBool True)], d_path = Some ''mods/nk.jar''\<rparr>)]"

text \<open>
  Two Fabric archives that declare the bundled jar \<open>libx\<close> in their \<open>jars\<close> list; in the
  second the list starts with an entry that is a string and has no \<open>get\<close>.
\<close>

definition zip_listed :: zipfile where
  "zip_listed =
     [(''fabric.mod.json'',
       Some (Blob (Some (PDict [(''id'', PStr ''listed''),
                                (''jars'', PList [PDict [(''id'', PStr ''libx'')]])]))
               None None))]"

definition zip_broken_list :: zipfile where
  "zip_broken_list =
     [(''fabric.mod.json'',
       Some (Blob (Some (PDict [(''id'', PStr ''listed''),
                                (''jars'', PList [PStr ''oops'', PDict [(''id'', PStr ''libx'')]])]))
               None None))]"

definition files_jars :: fs where
  "files_jars =
     [''mods/listed.jar'' \<mapsto> Blob None None (Some zip_listed),
      ''mods/broken-list.jar'' \<mapsto> Blob None None (Some zip_broken_list)]"

text \<open>
  The mod \<open>JEI\<close> is installed, and \<open>user\<close> requires \<open>jei\<close>, spelt in lower case; no
  archive bundles it.
\<close>

definition zip_jei :: zipfile where
  "zip_jei =
     [(''fabric.mod.json'', Some (Blob (Some (PDict [(''id'', PStr ''JEI'')])) None None))]"

definition zip_user :: zipfile where
  "zip_user =
     [(''fabric.mod.json'',
       Some (Blob (Some (PDict [(''id'', PStr ''user''), (''depends'', PDict [(''jei'', PStr ''*'')])]))
               None None))]"

definition files_case :: fs where
  "files_case =
     [''mods/jei.jar'' \<mapsto> Blob None None (Some zip_jei),
      ''mods/user.jar'' \<mapsto> Blob None None (Some zip_user)]"

definition registry_case :: "descriptor pydict" where
  "registry_case =
     [(PStr ''JEI'', \<lparr>d_id = PStr ''JEI'', d_name = PStr ''JEI'', d_depends = [],
                      d_path = Some ''mods/jei.jar''\<rparr>),
      (PStr ''user'', \<lparr>d_id = PStr ''user'', d_name = PStr ''user'',
                       d_depends = [(PStr ''jei'', PBool True)],
                       d_path = Some ''mods/user.jar''\<rparr>)]"

section \<open>Basic facts\<close>

lemma ebind_simps [simp]: "ebind (Inl e) f = Inl e" "ebind (Inr x) f = f x"
  by (simp_all add: ebind_def)

lemma ebind_eq_Inr: "ebind m f = Inr y \<longleftrightarrow> (\<exists>x. m = Inr x \<and> f x = Inr y)"
  by (cases m) simp_all

lemma ebind_map_sum:
  "(\<And>x. f' x = map_sum id g (f x)) \<Longrightarrow> ebind m f' = map_sum id g (ebind m f)"
  by (cases m) simp_all

lemma attempt_map_sum:
  "attempt c (map_sum id g body) (g rest) = g (attempt c body rest)"
  by (cases body) (simp_all add: attempt_def)

lemma attempt_cases:
  "attempt c body rest = r \<Longrightarrow> (c \<and> body = Inr r) \<or> rest = r"
  by (auto simp: attempt_def split: if_splits sum.splits)

section \<open>The two extractors agree\<close>

lemma path_fabric_eq: "path_fabric jar p = map_sum id (with_path p) (bytes_fabric jar)"
  unfolding path_fabric_def bytes_fabric_def
  by (intro ebind_map_sum) (simp add: with_path_def)

lemma path_forge_eq: "path_forge jar p = map_sum id (with_path p) (bytes_forge jar)"
  unfolding path_forge_def bytes_forge_def
  by (auto simp add: with_path_def intro!: ebind_map_sum)

lemma path_mcmod_eq: "path_mcmod jar p = map_sum id (with_path p) (bytes_mcmod jar)"
  unfolding path_mcmod_def bytes_mcmod_def
  by (auto simp add: with_path_def intro!: ebind_map_sum)

lemma extract_path_bytes:
  "files p = Some raw \<Longrightarrow>
   extract_mod_metadata files p = with_path p (extract_metadata_from_bytes raw)"
proof (cases "as_zip raw")
  case None
  assume "files p = Some raw"
  with None show ?thesis
    by (simp add: extract_mod_metadata_def extract_metadata_from_bytes_def open_path_def
        with_path_def)
next
  case (Some jar)
  assume f: "files p = Some raw"
  have n: "with_path p None = None" by (simp add: with_path_def)
  show ?thesis
    using f Some
    by (simp add: extract_mod_metadata_def extract_metadata_from_bytes_def open_path_def
        path_fabric_eq path_forge_eq path_mcmod_eq attempt_map_sum
        attempt_map_sum[where rest=None and g="with_path p", unfolded n])
qed

lemma bytes_fabric_no_path: "bytes_fabric jar = Inr (Some d) \<Longrightarrow> d_path d = None"
  unfolding bytes_fabric_def by (auto simp: ebind_eq_Inr)

lemma bytes_forge_no_path: "bytes_forge jar = Inr (Some d) \<Longrightarrow> d_path d = None"
  unfolding bytes_forge_def by (auto simp: ebind_eq_Inr split: if_splits)

lemma bytes_mcmod_no_path: "bytes_mcmod jar = Inr (Some d) \<Longrightarrow> d_path d = None"
  unfolding bytes_mcmod_def by (auto simp: ebind_eq_Inr split: if_splits)

lemma bytes_no_path:
  assumes "extract_metadata_from_bytes raw = Some d"
  shows "d_path d = None"
proof -
  from assms obtain jar where
    r: "attempt (''fabric.mod.json'' \<in> set (namelist jar)) (bytes_fabric jar)
         (attempt (''META-INF/mods.toml'' \<in> set (namelist jar)) (bytes_forge jar)
         (attempt (''mcmod.info'' \<in> set (namelist jar)) (bytes_mcmod jar) None)) = Some d"
    by (auto simp: extract_metadata_from_bytes_def split: option.splits)
  from attempt_cases[OF r] show ?thesis
  proof
    assume "''fabric.mod.json'' \<in> set (namelist jar) \<and> bytes_fabric jar = Inr (Some d)"
    then show ?thesis by (auto dest: bytes_fabric_no_path)
  next
    assume r2: "attempt (''META-INF/mods.toml'' \<in> set (namelist jar)) (bytes_forge jar)
         (attempt (''mcmod.info'' \<in> set (namelist jar)) (bytes_mcmod jar) None) = Some d"
    from attempt_cases[OF r2] show ?thesis
    proof
      assume "''META-INF/mods.toml'' \<in> set (namelist jar) \<and> bytes_forge jar = Inr (Some d)"
      then show ?thesis by (auto dest: bytes_forge_no_path)
    next
      assume r3: "attempt (''mcmod.info'' \<in> set (namelist jar)) (bytes_mcmod jar) None = Some d"
      from attempt_cases[OF r3] show ?thesis
        by (auto dest: bytes_mcmod_no_path)
    qed
  qed
qed

text \<open>
  C8. For an archive stored at a path, extracting from the path and extracting from the
  archive's bytes are absent together, and when present the descriptor from the path is the
  descriptor from the bytes with the path recorded: the same id, name and depends. The
  descriptor from the bytes carries no path.
\<close>

theorem extract_bytes_and_path_agree:
  "files p = Some raw \<Longrightarrow>
   extract_mod_metadata files p
     = map_option (\<lambda>d. d\<lparr>d_path := Some p\<rparr>) (extract_metadata_from_bytes raw) \<and>
   extract_metadata_from_bytes raw
     = map_option (\<lambda>d. d\<lparr>d_path := None\<rparr>) (extract_mod_metadata files p)"
proof -
  assume f: "files p = Some raw"
  have a: "extract_mod_metadata files p
     = map_option (\<lambda>d. d\<lparr>d_path := Some p\<rparr>) (extract_metadata_from_bytes raw)"
    using f extract_path_bytes[of files p raw] by (simp add: with_path_def)
  have b: "extract_metadata_from_bytes raw
     = map_option (\<lambda>d. d\<lparr>d_path := None\<rparr>) (extract_mod_metadata files p)"
  proof (cases "extract_metadata_from_bytes raw")
    case None
    then show ?thesis using a by simp
  next
    case (Some d)
    then show ?thesis using a bytes_no_path[OF Some] by simp
  qed
  from a b show ?thesis by simp
qed

theorem extract_bytes_and_path_agree_witness:
  "files_a ''mods/a.jar'' = Some jar_a \<and>
   extract_mod_metadata files_a ''mods/a.jar''
     = map_option (\<lambda>d. d\<lparr>d_path := Some ''mods/a.jar''\<rparr>) (extract_metadata_from_bytes jar_a) \<and>
   extract_metadata_from_bytes jar_a
     = map_option (\<lambda>d. d\<lparr>d_path := None\<rparr>) (extract_mod_metadata files_a ''mods/a.jar'')"
proof -
  have h: "files_a ''mods/a.jar'' = Some jar_a"
    by (simp add: files_a_def)
  from h extract_bytes_and_path_agree[of files_a "''mods/a.jar''" jar_a, OF h]
  show ?thesis by blast
qed

section \<open>Dicts keyed by Python values\<close>

lemma py_eq_PStr [simp]:
  "py_eq x (PStr s) \<longleftrightarrow> x = PStr s" "py_eq (PStr s) x \<longleftrightarrow> x = PStr s"
  by (cases x; auto)+

lemma py_eq_refl [simp]: "py_eq x x"
  by (cases x) simp_all

lemma py_eq_sym: "py_eq x y \<Longrightarrow> py_eq y x"
  by (cases x; cases y) auto

lemma py_eq_trans: "py_eq x y \<Longrightarrow> py_eq y z \<Longrightarrow> py_eq x z"
  by (cases x; cases y; cases z) (auto split: if_splits)

lemma py_eq_congr: "py_eq k k' \<Longrightarrow> py_eq k x = py_eq k' x"
  by (meson py_eq_sym py_eq_trans)

lemma pd_lookup_update:
  "pd_lookup (pd_update d k v) k' = (if py_eq k k' then Some v else pd_lookup d k')"
proof (induction d)
  case Nil
  show ?case by simp
next
  case (Cons e d)
  obtain a b where e: "e = (a, b)" by (cases e)
  show ?case
  proof (cases "py_eq a k")
    case True
    then show ?thesis using e py_eq_congr[OF True] by simp
  next
    case False
    then show ?thesis using e Cons.IH
      by (auto dest: py_eq_trans py_eq_sym)
  qed
qed

lemma keys_pd_update:
  "pd_keys (pd_update d k v) = (if py_in k (pd_keys d) then pd_keys d else pd_keys d @ [k])"
  by (induction d) (auto simp: pd_keys_def py_in_def)

lemma lookup_fold_str:
  "pd_lookup (fold (\<lambda>k d. pd_update d (PStr k) r) ks d) (PStr k) =
     (if k \<in> set ks then Some r else pd_lookup d (PStr k))"
  by (induction ks arbitrary: d) (auto simp: pd_lookup_update)

lemma keys_fold_str:
  "set (pd_keys (fold (\<lambda>k d. pd_update d (PStr k) r) ks d)) = set (pd_keys d) \<union> PStr ` set ks"
  by (induction ks arbitrary: d) (auto simp: keys_pd_update py_in_def list_ex_iff)

lemma add_all_keys:
  "add_all (map (\<lambda>kv. PStr (fst kv)) kvs) r d
     = Inr (fold (\<lambda>k d. pd_update d (PStr k) r) (map fst kvs) d)"
  by (induction kvs arbitrary: d) (simp_all add: pd_set_def)

lemma map_of_const: "map_of (map (\<lambda>k. (k, c)) ks) k = (if k \<in> set ks then Some c else None)"
  by (induction ks) auto

section \<open>The Fabric schema\<close>

lemma path_fabric_parsed:
  assumes "json_load jar ''fabric.mod.json'' = Inr (PDict data)"
    and "py_get (PDict data) (PStr ''depends'') (PDict []) = Inr (PDict hard)"
    and "py_get (PDict data) (PStr ''recommends'') (PDict []) = Inr (PDict recommended)"
    and "py_get (PDict data) (PStr ''suggests'') (PDict []) = Inr (PDict suggested)"
  shows "path_fabric jar p =
     Inr (Some \<lparr>d_id = (case map_of data ''id'' of None \<Rightarrow> PNone | Some v \<Rightarrow> v),
                d_name = py_or (case map_of data ''name'' of None \<Rightarrow> PNone | Some v \<Rightarrow> v)
                           (case map_of data ''id'' of None \<Rightarrow> PNone | Some v \<Rightarrow> v),
                d_depends = fabric_depends (map fst hard) (map fst recommended) (map fst suggested),
                d_path = Some p\<rparr>)"
  unfolding path_fabric_def fabric_depends_def
  using assms by (simp add: add_all_keys)

lemma fabric_depends_lookup:
  "pd_lookup (fabric_depends hard recommended suggested) (PStr k) =
     (if k \<in> set recommended \<union> set suggested then Some (PBool False)
      else if k \<in> set hard then Some (PBool True) else None)"
  by (simp add: fabric_depends_def lookup_fold_str)

lemma fabric_depends_spec:
  "pd_lookup (fabric_depends hard recommended suggested) (PStr k) =
     merged_depends_spec hard recommended suggested k"
  by (simp add: fabric_depends_lookup merged_depends_spec_def map_add_def map_of_const)

lemma fabric_depends_keys:
  "set (pd_keys (fabric_depends hard recommended suggested)) =
     PStr ` (set hard \<union> set recommended \<union> set suggested)"
proof -
  have "pd_keys ([] :: pv pydict) = []" by (simp add: pd_keys_def)
  then show ?thesis
    by (auto simp: fabric_depends_def keys_fold_str)
qed

lemma extract_fabric:
  assumes "open_path files p = Some jar"
    and "''fabric.mod.json'' \<in> set (namelist jar)"
    and "path_fabric jar p = Inr r"
  shows "extract_mod_metadata files p = r"
  using assms by (simp add: extract_mod_metadata_def attempt_def)

text \<open>
  C5. An archive whose \<open>fabric.mod.json\<close> parses to an object, with each of the three
  dependency categories an object where present, yields a descriptor whose id is the
  manifest's \<open>id\<close> field (\<open>None\<close> when absent), whose name is the \<open>name\<close> field, or the id
  when the name is absent (or falsy), and whose depends mapping is the merge of the hard
  category with required true, then recommended, then suggested with required false, a
  later category overriding an earlier one on the same key; its keys are the keys of the
  three categories.
\<close>

theorem schema_a_descriptor:
  assumes "open_path files p = Some jar"
    and "''fabric.mod.json'' \<in> set (namelist jar)"
    and "json_load jar ''fabric.mod.json'' = Inr (PDict data)"
    and "py_get (PDict data) (PStr ''depends'') (PDict []) = Inr (PDict hard)"
    and "py_get (PDict data) (PStr ''recommends'') (PDict []) = Inr (PDict recommended)"
    and "py_get (PDict data) (PStr ''suggests'') (PDict []) = Inr (PDict suggested)"
  shows "\<exists>d. extract_mod_metadata files p = Some d \<and>
     d_id d = (case map_of data ''id'' of None \<Rightarrow> PNone | Some v \<Rightarrow> v) \<and>
     d_name d = (case map_of data ''name'' of None \<Rightarrow> d_id d
                 | Some n \<Rightarrow> if truthy n then n else d_id d) \<and>
     (\<forall>k. pd_lookup (d_depends d) (PStr k)
            = merged_depends_spec (map fst hard) (map fst recommended) (map fst suggested) k) \<and>
     set (pd_keys (d_depends d))
       = PStr ` (fst ` set hard \<union> fst ` set recommended \<union> fst ` set suggested)"
proof -
  let ?d = "\<lparr>d_id = (case map_of data ''id'' of None \<Rightarrow> PNone | Some v \<Rightarrow> v),
                d_name = py_or (case map_of data ''name'' of None \<Rightarrow> PNone | Some v \<Rightarrow> v)
                           (case map_of data ''id'' of None \<Rightarrow> PNone | Some v \<Rightarrow> v),
                d_depends = fabric_depends (map fst hard) (map fst recommended) (map fst suggested),
                d_path = Some p\<rparr>"
  have "path_fabric jar p = Inr (Some ?d)"
    using assms(3-6) by (rule path_fabric_parsed)
  then have e: "extract_mod_metadata files p = Some ?d"
    using assms(1,2) by (rule extract_fabric[rotated 2])
  have n: "d_name ?d = (case map_of data ''name'' of None \<Rightarrow> d_id ?d
                 | Some n \<Rightarrow> if truthy n then n else d_id ?d)"
    by (simp add: py_or_def split: option.splits)
  show ?thesis
    apply (rule exI[of _ ?d])
    apply (intro conjI e n)
      apply simp
     apply (simp add: fabric_depends_spec)
    apply (simp add: fabric_depends_keys)
    done
qed

theorem schema_a_descriptor_witness:
  "\<exists>d. extract_mod_metadata files_a ''mods/a.jar'' = Some d \<and>
     d_id d = PStr ''a'' \<and> d_name d = PStr ''Mod A'' \<and>
     pd_lookup (d_depends d) (PStr ''x'') = Some (PBool True) \<and>
     pd_lookup (d_depends d) (PStr ''y'') = Some (PBool False) \<and>
     set (pd_keys (d_depends d)) = {PStr ''x'', PStr ''fabricloader'', PStr ''y''}"
proof -
  let ?data = "[(''id'', PStr ''a''), (''name'', PStr ''Mod A''),
            (''depends'', PDict [(''x'', PStr ''*''), (''fabricloader'', PStr ''*'')]),
            (''recommends'', PDict [(''y'', PStr ''*'')])]"
  have h1: "open_path files_a ''mods/a.jar'' = Some zip_a"
    by (simp add: open_path_def files_a_def jar_a_def)
  have h2: "''fabric.mod.json'' \<in> set (namelist zip_a)"
    by (simp add: namelist_def zip_a_def)
  have h3: "json_load zip_a ''fabric.mod.json'' = Inr (PDict ?data)"
    by (simp add: json_load_def zip_read_def zip_a_def manifest_a_def)
  have h4: "py_get (PDict ?data) (PStr ''depends'') (PDict [])
              = Inr (PDict [(''x'', PStr ''*''), (''fabricloader'', PStr ''*'')])"
    by simp
  have h5: "py_get (PDict ?data) (PStr ''recommends'') (PDict []) = Inr (PDict [(''y'', PStr ''*'')])"
    by simp
  have h6: "py_get (PDict ?data) (PStr ''suggests'') (PDict []) = Inr (PDict [])"
    by simp
  from schema_a_descriptor[OF h1 h2 h3 h4 h5 h6]
  obtain d where e: "extract_mod_metadata files_a ''mods/a.jar'' = Some d"
    and i: "d_id d = PStr ''a''"
    and n: "d_name d = PStr ''Mod A''"
    and l: "\<And>k. pd_lookup (d_depends d) (PStr k)
              = merged_depends_spec [''x'', ''fabricloader''] [''y''] [] k"
    and k: "set (pd_keys (d_depends d)) = {PStr ''x'', PStr ''fabricloader'', PStr ''y''}"
    by auto
  have "pd_lookup (d_depends d) (PStr ''x'') = Some (PBool True)"
    unfolding l by (simp add: merged_depends_spec_def map_add_def)
  moreover have "pd_lookup (d_depends d) (PStr ''y'') = Some (PBool False)"
    unfolding l by (simp add: merged_depends_spec_def map_add_def)
  ultimately show ?thesis using e i n k by blast
qed

section \<open>Which block a descriptor comes from\<close>

lemma extract_from_block:
  assumes "extract_mod_metadata files p = Some d"
  shows "\<exists>jar. open_path files p = Some jar \<and>
     (''fabric.mod.json'' \<in> set (namelist jar) \<and> path_fabric jar p = Inr (Some d) \<or>
      ''META-INF/mods.toml'' \<in> set (namelist jar) \<and> path_forge jar p = Inr (Some d) \<or>
      ''mcmod.info'' \<in> set (namelist jar) \<and> path_mcmod jar p = Inr (Some d))"
proof -
  from assms obtain jar where o: "open_path files p = Some jar" and
    r: "attempt (''fabric.mod.json'' \<in> set (namelist jar)) (path_fabric jar p)
         (attempt (''META-INF/mods.toml'' \<in> set (namelist jar)) (path_forge jar p)
         (attempt (''mcmod.info'' \<in> set (namelist jar)) (path_mcmod jar p) None)) = Some d"
    by (auto simp: extract_mod_metadata_def split: option.splits)
  from attempt_cases[OF r] have
    "''fabric.mod.json'' \<in> set (namelist jar) \<and> path_fabric jar p = Inr (Some d) \<or>
      ''META-INF/mods.toml'' \<in> set (namelist jar) \<and> path_forge jar p = Inr (Some d) \<or>
      ''mcmod.info'' \<in> set (namelist jar) \<and> path_mcmod jar p = Inr (Some d)"
  proof
    assume "''fabric.mod.json'' \<in> set (namelist jar) \<and> path_fabric jar p = Inr (Some d)"
    then show ?thesis by blast
  next
    assume r2: "attempt (''META-INF/mods.toml'' \<in> set (namelist jar)) (path_forge jar p)
         (attempt (''mcmod.info'' \<in> set (namelist jar)) (path_mcmod jar p) None) = Some d"
    from attempt_cases[OF r2] show ?thesis
    proof
      assume "''META-INF/mods.toml'' \<in> set (namelist jar) \<and> path_forge jar p = Inr (Some d)"
      then show ?thesis by blast
    next
      assume r3: "attempt (''mcmod.info'' \<in> set (namelist jar)) (path_mcmod jar p) None = Some d"
      from attempt_cases[OF r3] show ?thesis by auto
    qed
  qed
  with o show ?thesis by blast
qed

section \<open>The name falls back to the id\<close>

lemma fabric_name_fallback:
  assumes "path_fabric jar p = Inr (Some d)"
    and "json_load jar ''fabric.mod.json'' = Inr data"
    and "py_get data (PStr ''name'') PNone = Inr nm"
    and "\<not> truthy nm"
  shows "d_name d = d_id d"
  using assms unfolding path_fabric_def
  by (auto simp: ebind_eq_Inr py_or_def)

lemma forge_name_fallback:
  assumes "path_forge jar p = Inr (Some d)"
    and "toml_load jar ''META-INF/mods.toml'' = Inr data"
    and "py_get data (PStr ''mods'') (PList []) = Inr mod_entry"
    and "py_index0 mod_entry = Inr first"
    and "py_get first (PStr ''displayName'') PNone = Inr nm"
    and "\<not> truthy nm"
  shows "d_name d = d_id d"
  using assms unfolding path_forge_def
  by (auto simp: ebind_eq_Inr py_or_def split: if_splits)

lemma mcmod_name_fallback:
  assumes "path_mcmod jar p = Inr (Some d)"
    and "json_load jar ''mcmod.info'' = Inr data"
    and "py_index0 data = Inr entry"
    and "py_get entry (PStr ''name'') PNone = Inr nm"
    and "\<not> truthy nm"
  shows "d_name d = d_id d"
  using assms unfolding path_mcmod_def
  by (auto simp: ebind_eq_Inr py_or_def split: if_splits)

text \<open>
  C9. Every extracted descriptor was returned by one of the three blocks, and when the name
  field of that block's manifest (\<open>name\<close>, \<open>displayName\<close> of the first \<open>mods\<close> entry,
  \<open>name\<close> of the first list element) is falsy, in particular the empty string, the
  descriptor's name is its id.
\<close>

theorem falsy_name_falls_back_to_id:
  assumes "extract_mod_metadata files p = Some d"
  shows "\<exists>jar. open_path files p = Some jar \<and>
     ((path_fabric jar p = Inr (Some d) \<and>
       (\<forall>data nm. json_load jar ''fabric.mod.json'' = Inr data \<and>
          py_get data (PStr ''name'') PNone = Inr nm \<and> \<not> truthy nm \<longrightarrow> d_name d = d_id d)) \<or>
      (path_forge jar p = Inr (Some d) \<and>
       (\<forall>data mod_entry first nm. toml_load jar ''META-INF/mods.toml'' = Inr data \<and>
          py_get data (PStr ''mods'') (PList []) = Inr mod_entry \<and>
          py_index0 mod_entry = Inr first \<and>
          py_get first (PStr ''displayName'') PNone = Inr nm \<and> \<not> truthy nm \<longrightarrow> d_name d = d_id d)) \<or>
      (path_mcmod jar p = Inr (Some d) \<and>
       (\<forall>data entry nm. json_load jar ''mcmod.info'' = Inr data \<and>
          py_index0 data = Inr entry \<and>
          py_get entry (PStr ''name'') PNone = Inr nm \<and> \<not> truthy nm \<longrightarrow> d_name d = d_id d)))"
proof -
  from extract_from_block[OF assms] obtain jar where o: "open_path files p = Some jar"
    and c: "path_fabric jar p = Inr (Some d) \<or> path_forge jar p = Inr (Some d) \<or>
            path_mcmod jar p = Inr (Some d)"
    by blast
  from c show ?thesis
  proof (elim disjE)
    assume b: "path_fabric jar p = Inr (Some d)"
    show ?thesis
      apply (rule exI[of _ jar], rule conjI[OF o], rule disjI1)
      using b fabric_name_fallback[OF b] by blast
  next
    assume b: "path_forge jar p = Inr (Some d)"
    show ?thesis
      apply (rule exI[of _ jar], rule conjI[OF o], rule disjI2, rule disjI1)
      using b forge_name_fallback[OF b] by blast
  next
    assume b: "path_mcmod jar p = Inr (Some d)"
    show ?thesis
      apply (rule exI[of _ jar], rule conjI[OF o], rule disjI2, rule disjI2)
      using b mcmod_name_fallback[OF b] by blast
  qed
qed



lemma legacy_descriptor:
  "extract_mod_metadata files_broken ''mods/legacy.jar'' =
     Some \<lparr>d_id = PStr ''legacy'', d_name = PStr ''legacy'',
           d_depends = [(PStr ''lib'', PBool True)], d_path = Some ''mods/legacy.jar''\<rparr>"
  by (simp add: extract_mod_metadata_def open_path_def files_broken_def zip_broken_def
      namelist_def attempt_def path_fabric_def path_mcmod_def json_load_def zip_read_def
      mcmod_legacy_def py_or_def pd_set_def)

theorem falsy_name_falls_back_to_id_witness:
  "extract_mod_metadata files_broken ''mods/legacy.jar'' =
     Some \<lparr>d_id = PStr ''legacy'', d_name = PStr ''legacy'',
           d_depends = [(PStr ''lib'', PBool True)], d_path = Some ''mods/legacy.jar''\<rparr> \<and>
   json_load zip_broken ''mcmod.info'' = Inr mcmod_legacy \<and>
   (\<exists>entry. py_index0 mcmod_legacy = Inr entry \<and>
      py_get entry (PStr ''name'') PNone = Inr (PStr [])) \<and>
   d_name \<lparr>d_id = PStr ''legacy'', d_name = PStr ''legacy'',
           d_depends = [(PStr ''lib'', PBool True)], d_path = Some ''mods/legacy.jar''\<rparr>
     = d_id \<lparr>d_id = PStr ''legacy'', d_name = PStr ''legacy'',
           d_depends = [(PStr ''lib'', PBool True)], d_path = Some ''mods/legacy.jar''\<rparr>"
proof -
  let ?p = "''mods/legacy.jar''"
  let ?d = "\<lparr>d_id = PStr ''legacy'', d_name = PStr ''legacy'',
           d_depends = [(PStr ''lib'', PBool True)], d_path = Some ?p\<rparr>"
  have j: "json_load zip_broken ''mcmod.info'' = Inr mcmod_legacy"
    by (simp add: json_load_def zip_read_def zip_broken_def)
  have i: "py_index0 mcmod_legacy
             = Inr (PDict [(''modid'', PStr ''legacy''), (''name'', PStr []),
                           (''dependencies'', PList [PStr ''lib''])])"
    by (simp add: mcmod_legacy_def)
  have n: "py_get (PDict [(''modid'', PStr ''legacy''), (''name'', PStr []),
                           (''dependencies'', PList [PStr ''lib''])]) (PStr ''name'') PNone
             = Inr (PStr [])"
    by simp
  have f: "path_fabric zip_broken ?p \<noteq> Inr (Some ?d)"
    by (simp add: path_fabric_def json_load_def zip_read_def zip_broken_def)
  have g: "path_forge zip_broken ?p \<noteq> Inr (Some ?d)"
    by (simp add: path_forge_def toml_load_def zip_read_def zip_broken_def)
  from falsy_name_falls_back_to_id[OF legacy_descriptor]
  obtain jar where o: "open_path files_broken ?p = Some jar"
    and c: "path_fabric jar ?p = Inr (Some ?d) \<or> path_forge jar ?p = Inr (Some ?d) \<or>
       (\<forall>data entry nm. json_load jar ''mcmod.info'' = Inr data \<and>
          py_index0 data = Inr entry \<and>
          py_get entry (PStr ''name'') PNone = Inr nm \<and> \<not> truthy nm \<longrightarrow> d_name ?d = d_id ?d)"
    by blast
  from o have jar: "jar = zip_broken"
    by (simp add: open_path_def files_broken_def)
  from c f g have "\<forall>data entry nm. json_load zip_broken ''mcmod.info'' = Inr data \<and>
          py_index0 data = Inr entry \<and>
          py_get entry (PStr ''name'') PNone = Inr nm \<and> \<not> truthy nm \<longrightarrow> d_name ?d = d_id ?d"
    unfolding jar by blast
  with j i n have "d_name ?d = d_id ?d"
    by (metis truthy.simps(4))
  with legacy_descriptor j i n show ?thesis by blast
qed

section \<open>The required flag\<close>

lemma add_forge_lookup:
  "add_forge deps acc = Inr depends \<Longrightarrow>
   pd_lookup depends k = (case last_mandatory deps k of Some r \<Rightarrow> Some r | None \<Rightarrow> pd_lookup acc k)"
proof (induction deps arbitrary: acc)
  case Nil
  then show ?case by simp
next
  case (Cons dep deps)
  from Cons.prems obtain dep_id r acc' where
    i: "py_get dep (PStr ''modId'') PNone = Inr dep_id" and
    m: "py_get dep (PStr ''mandatory'') (PBool False) = Inr r" and
    s: "pd_set acc dep_id r = Inr acc'" and
    a: "add_forge deps acc' = Inr depends"
    by (auto simp: ebind_eq_Inr)
  from s have acc': "acc' = pd_update acc dep_id r"
    by (auto simp: pd_set_def split: if_splits)
  show ?case
    using Cons.IH[OF a] i m
    by (simp add: acc' pd_lookup_update split: option.splits)
qed

lemma py_keys_Inr: "py_keys v = Inr ks \<Longrightarrow> \<exists>kvs. v = PDict kvs \<and> ks = map (\<lambda>kv. PStr (fst kv)) kvs"
  by (cases v) auto

lemma fabric_flags:
  assumes "path_fabric jar p = Inr (Some d)"
  shows "\<exists>data hard recommended suggested.
     json_load jar ''fabric.mod.json'' = Inr data \<and>
     py_get data (PStr ''depends'') (PDict []) = Inr (PDict hard) \<and>
     py_get data (PStr ''recommends'') (PDict []) = Inr (PDict recommended) \<and>
     py_get data (PStr ''suggests'') (PDict []) = Inr (PDict suggested) \<and>
     (\<forall>k. pd_lookup (d_depends d) (PStr k) =
        (if k \<in> fst ` set recommended \<union> fst ` set suggested then Some (PBool False)
         else if k \<in> fst ` set hard then Some (PBool True) else None))"
proof -
  from assms obtain data v1 v2 v3 ks1 ks2 ks3 d1 d2 d3 where
    j: "json_load jar ''fabric.mod.json'' = Inr data" and
    g1: "py_get data (PStr ''depends'') (PDict []) = Inr v1" and k1: "py_keys v1 = Inr ks1" and
    a1: "add_all ks1 (PBool True) [] = Inr d1" and
    g2: "py_get data (PStr ''recommends'') (PDict []) = Inr v2" and k2: "py_keys v2 = Inr ks2" and
    a2: "add_all ks2 (PBool False) d1 = Inr d2" and
    g3: "py_get data (PStr ''suggests'') (PDict []) = Inr v3" and k3: "py_keys v3 = Inr ks3" and
    a3: "add_all ks3 (PBool False) d2 = Inr d3" and
    d: "d_depends d = d3"
    unfolding path_fabric_def by (auto simp: ebind_eq_Inr)
  from py_keys_Inr[OF k1] obtain hard where h: "v1 = PDict hard" "ks1 = map (\<lambda>kv. PStr (fst kv)) hard"
    by blast
  from py_keys_Inr[OF k2] obtain recommended where r: "v2 = PDict recommended"
      "ks2 = map (\<lambda>kv. PStr (fst kv)) recommended"
    by blast
  from py_keys_Inr[OF k3] obtain suggested where s: "v3 = PDict suggested"
      "ks3 = map (\<lambda>kv. PStr (fst kv)) suggested"
    by blast
  have "d3 = fabric_depends (map fst hard) (map fst recommended) (map fst suggested)"
    using a1 a2 a3 by (auto simp: h r s add_all_keys fabric_depends_def)
  then have "\<forall>k. pd_lookup (d_depends d) (PStr k) =
        (if k \<in> fst ` set recommended \<union> fst ` set suggested then Some (PBool False)
         else if k \<in> fst ` set hard then Some (PBool True) else None)"
    using d by (simp add: fabric_depends_lookup)
  with j g1 g2 g3 h r s show ?thesis by blast
qed

lemma forge_flags:
  assumes "path_forge jar p = Inr (Some d)"
  shows "\<exists>deps. forge_entries jar = Inr deps \<and>
     (\<forall>k. pd_lookup (d_depends d) k = last_mandatory deps k)"
proof -
  from assms obtain deps where
    e: "forge_entries jar = Inr deps" and a: "add_forge deps [] = Inr (d_depends d)"
    unfolding path_forge_def forge_entries_def
    by (auto simp: ebind_eq_Inr split: if_splits)
  from add_forge_lookup[OF a] have "\<forall>k. pd_lookup (d_depends d) k = last_mandatory deps k"
    by (simp split: option.splits)
  with e show ?thesis by blast
qed

lemma add_all_lookup:
  "add_all ks r acc = Inr depends \<Longrightarrow> pd_lookup depends k = Some v \<Longrightarrow>
   v = r \<or> pd_lookup acc k = Some v"
proof (induction ks arbitrary: acc)
  case Nil
  then show ?case by simp
next
  case (Cons a ks)
  from Cons.prems(1) obtain acc' where s: "pd_set acc a r = Inr acc'"
    and a: "add_all ks r acc' = Inr depends"
    by (auto simp: ebind_eq_Inr)
  from s have acc': "acc' = pd_update acc a r"
    by (auto simp: pd_set_def split: if_splits)
  from Cons.IH[OF a Cons.prems(2)] show ?case
    by (auto simp: acc' pd_lookup_update split: if_splits)
qed

lemma mcmod_flags:
  assumes "path_mcmod jar p = Inr (Some d)"
  shows "\<forall>k r. pd_lookup (d_depends d) k = Some r \<longrightarrow> r = PBool True"
proof (intro allI impI)
  fix k r
  assume l: "pd_lookup (d_depends d) k = Some r"
  from assms obtain ks1 ks2 d1 where
    a1: "add_all ks1 (PBool True) [] = Inr d1" and
    a2: "add_all ks2 (PBool True) d1 = Inr (d_depends d)"
    unfolding path_mcmod_def by (auto simp: ebind_eq_Inr split: if_splits)
  from add_all_lookup[OF a2 l] add_all_lookup[OF a1, of k r]
  show "r = PBool True" by auto
qed

lemma both_descriptor:
  "extract_mod_metadata files_both ''mods/both.jar'' =
     Some \<lparr>d_id = PStr ''both'', d_name = PStr ''both'',
           d_depends = [(PStr ''x'', PBool False)], d_path = Some ''mods/both.jar''\<rparr>"
  by (simp add: extract_mod_metadata_def open_path_def files_both_def zip_both_def
      namelist_def attempt_def path_fabric_def json_load_def zip_read_def
      manifest_both_def py_or_def pd_set_def)

text \<open>
  C4, as the claim states it, fails: \<open>x\<close> is declared under \<open>depends\<close>, a hard category,
  and its required flag is \<open>False\<close>, because \<open>x\<close> is also declared under \<open>recommends\<close>.
\<close>

theorem hard_and_soft_counterexample:
  "json_load zip_both ''fabric.mod.json'' = Inr manifest_both \<and>
   py_get manifest_both (PStr ''depends'') (PDict []) = Inr (PDict [(''x'', PStr ''*'')]) \<and>
   map_option (\<lambda>d. pd_lookup (d_depends d) (PStr ''x''))
     (extract_mod_metadata files_both ''mods/both.jar'') = Some (Some (PBool False))"
  by (simp add: both_descriptor json_load_def zip_read_def zip_both_def manifest_both_def)

text \<open>
  C4, amended. The required flag of a dependency is that of its last declaration in the
  order the block visits them. Fabric: a key of \<open>recommends\<close> or \<open>suggests\<close> has
  \<open>False\<close>, also when it is a key of \<open>depends\<close>; a key of \<open>depends\<close> alone has \<open>True\<close>.
  \<open>mods.toml\<close>: the flag is the \<open>mandatory\<close> value, \<open>False\<close> when absent, of the last
  dependency table with that \<open>modId\<close>. \<open>mcmod.info\<close>: every flag is \<open>True\<close>.
\<close>

theorem required_flag_is_last_declaration:
  assumes "extract_mod_metadata files p = Some d"
  shows "\<exists>jar. open_path files p = Some jar \<and>
     ((path_fabric jar p = Inr (Some d) \<and>
       (\<exists>data hard recommended suggested.
          json_load jar ''fabric.mod.json'' = Inr data \<and>
          py_get data (PStr ''depends'') (PDict []) = Inr (PDict hard) \<and>
          py_get data (PStr ''recommends'') (PDict []) = Inr (PDict recommended) \<and>
          py_get data (PStr ''suggests'') (PDict []) = Inr (PDict suggested) \<and>
          (\<forall>k. pd_lookup (d_depends d) (PStr k) =
             (if k \<in> fst ` set recommended \<union> fst ` set suggested then Some (PBool False)
              else if k \<in> fst ` set hard then Some (PBool True) else None)))) \<or>
      (path_forge jar p = Inr (Some d) \<and>
       (\<exists>deps. forge_entries jar = Inr deps \<and>
          (\<forall>k. pd_lookup (d_depends d) k = last_mandatory deps k))) \<or>
      (path_mcmod jar p = Inr (Some d) \<and>
       (\<forall>k r. pd_lookup (d_depends d) k = Some r \<longrightarrow> r = PBool True)))"
proof -
  from extract_from_block[OF assms] obtain jar where o: "open_path files p = Some jar"
    and c: "path_fabric jar p = Inr (Some d) \<or> path_forge jar p = Inr (Some d) \<or>
            path_mcmod jar p = Inr (Some d)"
    by blast
  from c show ?thesis
  proof (elim disjE)
    assume b: "path_fabric jar p = Inr (Some d)"
    show ?thesis
      apply (rule exI[of _ jar], rule conjI[OF o], rule disjI1)
      using b fabric_flags[OF b] by blast
  next
    assume b: "path_forge jar p = Inr (Some d)"
    show ?thesis
      apply (rule exI[of _ jar], rule conjI[OF o], rule disjI2, rule disjI1)
      using b forge_flags[OF b] by blast
  next
    assume b: "path_mcmod jar p = Inr (Some d)"
    show ?thesis
      apply (rule exI[of _ jar], rule conjI[OF o], rule disjI2, rule disjI2)
      using b mcmod_flags[OF b] by blast
  qed
qed

theorem required_flag_is_last_declaration_witness:
  "extract_mod_metadata files_both ''mods/both.jar'' =
     Some \<lparr>d_id = PStr ''both'', d_name = PStr ''both'',
           d_depends = [(PStr ''x'', PBool False)], d_path = Some ''mods/both.jar''\<rparr> \<and>
   json_load zip_both ''fabric.mod.json'' = Inr manifest_both \<and>
   py_get manifest_both (PStr ''recommends'') (PDict []) = Inr (PDict [(''x'', PStr ''*'')]) \<and>
   pd_lookup [(PStr ''x'', PBool False)] (PStr ''x'') = Some (PBool False)"
proof -
  let ?p = "''mods/both.jar''"
  let ?d = "\<lparr>d_id = PStr ''both'', d_name = PStr ''both'',
           d_depends = [(PStr ''x'', PBool False)], d_path = Some ?p\<rparr>"
  have j: "json_load zip_both ''fabric.mod.json'' = Inr manifest_both"
    by (simp add: json_load_def zip_read_def zip_both_def)
  have r: "py_get manifest_both (PStr ''recommends'') (PDict []) = Inr (PDict [(''x'', PStr ''*'')])"
    by (simp add: manifest_both_def)
  have g: "path_forge zip_both ?p \<noteq> Inr (Some ?d)"
    by (simp add: path_forge_def toml_load_def zip_read_def zip_both_def)
  have m: "path_mcmod zip_both ?p \<noteq> Inr (Some ?d)"
    by (simp add: path_mcmod_def json_load_def zip_read_def zip_both_def)
  from required_flag_is_last_declaration[OF both_descriptor]
  obtain jar where o: "open_path files_both ?p = Some jar"
    and c: "(\<exists>data hard recommended suggested.
          json_load jar ''fabric.mod.json'' = Inr data \<and>
          py_get data (PStr ''depends'') (PDict []) = Inr (PDict hard) \<and>
          py_get data (PStr ''recommends'') (PDict []) = Inr (PDict recommended) \<and>
          py_get data (PStr ''suggests'') (PDict []) = Inr (PDict suggested) \<and>
          (\<forall>k. pd_lookup (d_depends ?d) (PStr k) =
             (if k \<in> fst ` set recommended \<union> fst ` set suggested then Some (PBool False)
              else if k \<in> fst ` set hard then Some (PBool True) else None))) \<or>
       path_forge jar ?p = Inr (Some ?d) \<or> path_mcmod jar ?p = Inr (Some ?d)"
    by blast
  from o have jar: "jar = zip_both"
    by (simp add: open_path_def files_both_def)
  from c g m have "\<exists>data hard recommended suggested.
          json_load zip_both ''fabric.mod.json'' = Inr data \<and>
          py_get data (PStr ''depends'') (PDict []) = Inr (PDict hard) \<and>
          py_get data (PStr ''recommends'') (PDict []) = Inr (PDict recommended) \<and>
          py_get data (PStr ''suggests'') (PDict []) = Inr (PDict suggested) \<and>
          (\<forall>k. pd_lookup (d_depends ?d) (PStr k) =
             (if k \<in> fst ` set recommended \<union> fst ` set suggested then Some (PBool False)
              else if k \<in> fst ` set hard then Some (PBool True) else None))"
    unfolding jar by blast
  then have "pd_lookup (d_depends ?d) (PStr ''x'') = Some (PBool False)"
  proof (elim exE conjE)
    fix data hard recommended suggested
    assume jd: "json_load zip_both ''fabric.mod.json'' = Inr data"
      and rd: "py_get data (PStr ''recommends'') (PDict []) = Inr (PDict recommended)"
      and l: "\<forall>k. pd_lookup (d_depends ?d) (PStr k) =
             (if k \<in> fst ` set recommended \<union> fst ` set suggested then Some (PBool False)
              else if k \<in> fst ` set hard then Some (PBool True) else None)"
    from j jd have "data = manifest_both" by simp
    with rd r have "recommended = [(''x'', PStr ''*'')]" by simp
    with l show ?thesis by simp
  qed
  with both_descriptor j r show ?thesis by simp
qed

section \<open>A block that raises is skipped\<close>

lemma map_of_remove:
  "map_of (filter (\<lambda>entry. fst entry \<noteq> m) xs) n = (if n = m then None else map_of xs n)"
  by (induction xs) auto

lemma zip_read_remove: "n \<noteq> m \<Longrightarrow> zip_read (remove_entry m jar) n = zip_read jar n"
  by (simp add: zip_read_def remove_entry_def rev_filter map_of_remove)

lemma namelist_remove:
  "n \<in> set (namelist (remove_entry m jar)) \<longleftrightarrow> n \<noteq> m \<and> n \<in> set (namelist jar)"
  by (auto simp: namelist_def remove_entry_def)

lemma path_fabric_remove:
  "m \<noteq> ''fabric.mod.json'' \<Longrightarrow> path_fabric (remove_entry m jar) p = path_fabric jar p"
  by (simp add: path_fabric_def json_load_def zip_read_remove)

lemma path_forge_remove:
  "m \<noteq> ''META-INF/mods.toml'' \<Longrightarrow> path_forge (remove_entry m jar) p = path_forge jar p"
  by (simp add: path_forge_def toml_load_def zip_read_remove)

lemma path_mcmod_remove:
  "m \<noteq> ''mcmod.info'' \<Longrightarrow> path_mcmod (remove_entry m jar) p = path_mcmod jar p"
  by (simp add: path_mcmod_def json_load_def zip_read_remove)

text \<open>
  C2, as the claim states it, fails: the archive has a \<open>fabric.mod.json\<close>, its block raises
  on the parse, and the extractor returns the descriptor of the \<open>mcmod.info\<close> in the same
  archive.
\<close>

theorem later_schema_counterexample:
  "''fabric.mod.json'' \<in> set (namelist zip_broken) \<and>
   path_fabric zip_broken ''mods/legacy.jar'' = Inl ParseError \<and>
   extract_mod_metadata files_broken ''mods/legacy.jar'' =
     Some \<lparr>d_id = PStr ''legacy'', d_name = PStr ''legacy'',
           d_depends = [(PStr ''lib'', PBool True)], d_path = Some ''mods/legacy.jar''\<rparr>"
  by (simp add: legacy_descriptor namelist_def zip_broken_def path_fabric_def json_load_def
      zip_read_def)

text \<open>
  C2, amended. When the block of a schema raises, whatever the failure, the extractor
  returns what it returns for the same archive without that schema's manifest: the
  exception is swallowed and the later schemas are still attempted, so the result is
  absent only when none of them returns a descriptor.
\<close>

theorem failed_schema_is_skipped:
  assumes "open_path files p = Some jar"
    and "open_path files' p = Some (remove_entry n jar)"
    and "n = ''fabric.mod.json'' \<and> path_fabric jar p = Inl e \<or>
         n = ''META-INF/mods.toml'' \<and> path_forge jar p = Inl e \<or>
         n = ''mcmod.info'' \<and> path_mcmod jar p = Inl e"
  shows "extract_mod_metadata files p = extract_mod_metadata files' p"
  using assms(3)
proof (elim disjE conjE)
  assume "n = ''fabric.mod.json''" "path_fabric jar p = Inl e"
  then show ?thesis
    using assms(1,2)
    by (simp add: extract_mod_metadata_def attempt_def namelist_remove
        path_forge_remove path_mcmod_remove)
next
  assume "n = ''META-INF/mods.toml''" "path_forge jar p = Inl e"
  then show ?thesis
    using assms(1,2)
    by (simp add: extract_mod_metadata_def attempt_def namelist_remove
        path_fabric_remove path_mcmod_remove split: sum.splits)
next
  assume "n = ''mcmod.info''" "path_mcmod jar p = Inl e"
  then show ?thesis
    using assms(1,2)
    by (simp add: extract_mod_metadata_def attempt_def namelist_remove
        path_fabric_remove path_forge_remove split: sum.splits)
qed

theorem failed_schema_is_skipped_witness:
  "open_path files_broken ''mods/legacy.jar'' = Some zip_broken \<and>
   open_path files_legacy ''mods/legacy.jar'' = Some (remove_entry ''fabric.mod.json'' zip_broken) \<and>
   path_fabric zip_broken ''mods/legacy.jar'' = Inl ParseError \<and>
   extract_mod_metadata files_broken ''mods/legacy.jar''
     = extract_mod_metadata files_legacy ''mods/legacy.jar''"
proof -
  have h1: "open_path files_broken ''mods/legacy.jar'' = Some zip_broken"
    by (simp add: open_path_def files_broken_def)
  have h2: "open_path files_legacy ''mods/legacy.jar''
              = Some (remove_entry ''fabric.mod.json'' zip_broken)"
    by (simp add: open_path_def files_legacy_def)
  have h3: "path_fabric zip_broken ''mods/legacy.jar'' = Inl ParseError"
    by (simp add: path_fabric_def json_load_def zip_read_def zip_broken_def)
  have h: "''fabric.mod.json'' = ''fabric.mod.json'' \<and>
             path_fabric zip_broken ''mods/legacy.jar'' = Inl ParseError \<or>
           ''fabric.mod.json'' = ''META-INF/mods.toml'' \<and>
             path_forge zip_broken ''mods/legacy.jar'' = Inl ParseError \<or>
           ''fabric.mod.json'' = ''mcmod.info'' \<and>
             path_mcmod zip_broken ''mods/legacy.jar'' = Inl ParseError"
    using h3 by simp
  from h1 h2 h3 failed_schema_is_skipped[OF h1 h2 h] show ?thesis
    by blast
qed

section \<open>Lower case\<close>

lemma lower_char_idem: "lower_char (lower_char c) = lower_char c"
  by (simp add: lower_char_def)

lemma lower_idem: "lower (lower s) = lower s"
  by (simp add: lower_def lower_char_idem)

lemma lower_Nil: "lower s = [] \<longleftrightarrow> s = []"
  by (simp add: lower_def)

section \<open>The embedding detector\<close>

lemma hit_iff: "(case m of Inl e \<Rightarrow> False | Inr hit \<Rightarrow> hit) \<longleftrightarrow> m = Inr True"
  by (cases m) auto

lemma embedded_jars_iff:
  "embedded_jars jar dep \<longleftrightarrow>
     (\<exists>name \<in> set (namelist jar).
        (startswith name ''META-INF/jars/'' \<or> startswith name ''META-INF/jarjar/'') \<and>
        endswith name ''.jar'' \<and> nested_probe jar name dep = Inr True)"
  by (auto simp: embedded_jars_def embedded_prefixes_def list_ex_iff hit_iff)

lemma fabric_jars_iff:
  "fabric_jars jar dep \<longleftrightarrow>
     ''fabric.mod.json'' \<in> set (namelist jar) \<and>
     (\<exists>data entries. json_load jar ''fabric.mod.json'' = Inr data \<and>
        ebind (py_get data (PStr ''jars'') (PList [])) py_iter = Inr entries \<and>
        jars_loop entries dep = Inr True)"
  by (auto simp: fabric_jars_def hit_iff ebind_eq_Inr)

lemma detector_value:
  "is_dependency_embedded files p (PStr s) =
     Inr (case open_path files p of
            None \<Rightarrow> False
          | Some jar \<Rightarrow>
              embedded_jars jar (lower s) \<or> namespace_folders jar (lower s) \<or>
              class_packages jar (lower s) \<or> fabric_jars jar (lower s))"
  by (auto simp: is_dependency_embedded_def Let_def split: option.splits)

text \<open>
  The identifier is lowered before the first \<open>try\<close>: a value without \<open>lower\<close>, such as
  \<open>None\<close>, raises there.
\<close>

lemma detector_needs_a_string:
  "is_dependency_embedded files p PNone = Inl AttributeError"
  by (simp add: is_dependency_embedded_def)

lemma startswith_iff: "startswith s p \<longleftrightarrow> (\<exists>r. s = p @ r)"
  unfolding startswith_def
  by (metis append_eq_conv_conj append_take_drop_id)

lemma contains_iff: "contains s p \<longleftrightarrow> (\<exists>a b. s = a @ p @ b)"
proof (induction s)
  case Nil
  show ?case by auto
next
  case (Cons c s)
  show ?case
  proof
    assume "contains (c # s) p"
    then consider "startswith (c # s) p" | "contains s p" by auto
    then show "\<exists>a b. c # s = a @ p @ b"
    proof cases
      case 1
      then obtain r where "c # s = p @ r" by (auto simp: startswith_iff)
      then have "c # s = [] @ p @ r" by simp
      then show ?thesis by blast
    next
      case 2
      with Cons.IH obtain a b where "s = a @ p @ b" by blast
      then have "c # s = (c # a) @ p @ b" by simp
      then show ?thesis by blast
    qed
  next
    assume "\<exists>a b. c # s = a @ p @ b"
    then obtain a b where e: "c # s = a @ p @ b" by blast
    show "contains (c # s) p"
    proof (cases a)
      case Nil
      with e have "startswith (c # s) p" by (auto simp: startswith_iff)
      then show ?thesis by simp
    next
      case (Cons x a')
      with e have "s = a' @ p @ b" by simp
      with Cons.IH have "contains s p" by blast
      then show ?thesis by simp
    qed
  qed
qed

lemma nested_probe_iff:
  "nested_probe jar name dep = Inr True \<longleftrightarrow>
     (\<exists>raw meta i. zip_read jar name = Inr raw \<and> extract_metadata_from_bytes raw = Some meta \<and>
        d_id meta = PStr i \<and> i \<noteq> [] \<and> lower i = dep)"
proof (cases "zip_read jar name")
  case (Inl e)
  then show ?thesis by (simp add: nested_probe_def)
next
  case (Inr raw)
  show ?thesis
  proof (cases "extract_metadata_from_bytes raw")
    case None
    with Inr show ?thesis by (simp add: nested_probe_def)
  next
    case (Some meta)
    with Inr show ?thesis
      by (cases "d_id meta") (auto simp: nested_probe_def)
  qed
qed

lemma jars_loop_iff:
  "jars_loop entries dep = Inr True \<longleftrightarrow>
     (\<exists>pre e post i. entries = pre @ e # post \<and>
        (\<forall>x \<in> set pre. \<exists>j. py_get x (PStr ''id'') (PStr []) = Inr (PStr j) \<and>
                              \<not> contains (lower j) dep) \<and>
        py_get e (PStr ''id'') (PStr []) = Inr (PStr i) \<and> contains (lower i) dep)"
  (is "?L entries \<longleftrightarrow> ?R entries")
proof (induction entries)
  case Nil
  show ?case by simp
next
  case (Cons entry entries)
  show ?case
  proof (cases "py_get entry (PStr ''id'') (PStr [])")
    case (Inl e)
    have "\<not> ?R (entry # entries)"
    proof
      assume "?R (entry # entries)"
      then obtain pre e' post i where d: "entry # entries = pre @ e' # post"
        and p: "\<forall>x \<in> set pre. \<exists>j. py_get x (PStr ''id'') (PStr []) = Inr (PStr j) \<and>
                              \<not> contains (lower j) dep"
        and m: "py_get e' (PStr ''id'') (PStr []) = Inr (PStr i)"
        by blast
      from d have "entry = e' \<or> entry \<in> set pre" by (cases pre) auto
      with p m Inl show False by auto
    qed
    with Inl show ?thesis by simp
  next
    case (Inr v)
    show ?thesis
    proof (cases "\<exists>s. v = PStr s")
      case False
      have "\<not> ?R (entry # entries)"
      proof
        assume "?R (entry # entries)"
        then obtain pre e' post i where d: "entry # entries = pre @ e' # post"
          and p: "\<forall>x \<in> set pre. \<exists>j. py_get x (PStr ''id'') (PStr []) = Inr (PStr j) \<and>
                              \<not> contains (lower j) dep"
          and m: "py_get e' (PStr ''id'') (PStr []) = Inr (PStr i)"
          by blast
        from d have "entry = e' \<or> entry \<in> set pre" by (cases pre) auto
        then show False
        proof
          assume "entry = e'"
          with m Inr False show False by auto
        next
          assume "entry \<in> set pre"
          with p obtain j where "py_get entry (PStr ''id'') (PStr []) = Inr (PStr j)" by blast
          with Inr False show False by auto
        qed
      qed
      moreover from Inr False have "jars_loop (entry # entries) dep = Inl AttributeError"
        by (cases v) auto
      ultimately show ?thesis by simp
    next
      case True
      then obtain s where s: "v = PStr s" by blast
      show ?thesis
      proof (cases "contains (lower s) dep")
        case True
        have "entry # entries = [] @ entry # entries" by simp
        with Inr s True have "?R (entry # entries)" by (metis empty_iff list.set(1))
        with Inr s True show ?thesis by simp
      next
        case False
        have "?R (entry # entries) \<longleftrightarrow> ?R entries"
        proof
          assume "?R (entry # entries)"
          then obtain pre e' post i where d: "entry # entries = pre @ e' # post"
            and p: "\<forall>x \<in> set pre. \<exists>j. py_get x (PStr ''id'') (PStr []) = Inr (PStr j) \<and>
                              \<not> contains (lower j) dep"
            and m: "py_get e' (PStr ''id'') (PStr []) = Inr (PStr i)" "contains (lower i) dep"
            by blast
          show "?R entries"
          proof (cases pre)
            case Nil
            with d m Inr s False show ?thesis by auto
          next
            case (Cons x pre')
            with d have "entries = pre' @ e' # post" by simp
            moreover from p Cons have "\<forall>x \<in> set pre'. \<exists>j. py_get x (PStr ''id'') (PStr []) = Inr (PStr j) \<and>
                              \<not> contains (lower j) dep" by simp
            ultimately show ?thesis using m by blast
          qed
        next
          assume "?R entries"
          then obtain pre e' post i where d: "entries = pre @ e' # post"
            and p: "\<forall>x \<in> set pre. \<exists>j. py_get x (PStr ''id'') (PStr []) = Inr (PStr j) \<and>
                              \<not> contains (lower j) dep"
            and m: "py_get e' (PStr ''id'') (PStr []) = Inr (PStr i)" "contains (lower i) dep"
            by blast
          from d have "entry # entries = (entry # pre) @ e' # post" by simp
          moreover from p Inr s False have "\<forall>x \<in> set (entry # pre). \<exists>j. py_get x (PStr ''id'') (PStr []) = Inr (PStr j) \<and>
                              \<not> contains (lower j) dep" by simp
          ultimately show "?R (entry # entries)" using m by blast
        qed
        with Cons.IH Inr s False show ?thesis by simp
      qed
    qed
  qed
qed

lemma namespace_folders_iff:
  "namespace_folders jar dep \<longleftrightarrow>
     (\<exists>p \<in> set (namelist jar). startswith p (''assets/'' @ dep @ ''/'') \<or>
                                 startswith p (''data/'' @ dep @ ''/''))"
  by (auto simp: namespace_folders_def list_ex_iff)

lemma class_packages_iff:
  "class_packages jar dep \<longleftrightarrow>
     (\<exists>name \<in> set (namelist jar).
        (startswith (lower name) (dep @ ''/'') \<or> startswith (lower name) (''com/'' @ dep @ ''/'') \<or>
         startswith (lower name) (''net/'' @ dep @ ''/'') \<or>
         startswith (lower name) (''io/'' @ dep @ ''/'')) \<and>
        endswith (lower name) ''.class'')"
  by (auto simp: class_packages_def list_ex_iff Let_def)


lemma fabric_jars_spec:
  "fabric_jars jar dep \<longleftrightarrow>
     ''fabric.mod.json'' \<in> set (namelist jar) \<and>
     (\<exists>data jars entries pre e post i.
        json_load jar ''fabric.mod.json'' = Inr data \<and>
        py_get data (PStr ''jars'') (PList []) = Inr jars \<and>
        py_iter jars = Inr entries \<and>
        entries = pre @ e # post \<and>
        (\<forall>x \<in> set pre. \<exists>j. py_get x (PStr ''id'') (PStr []) = Inr (PStr j) \<and>
                              \<not> (\<exists>a b. lower j = a @ dep @ b)) \<and>
        py_get e (PStr ''id'') (PStr []) = Inr (PStr i) \<and> (\<exists>a b. lower i = a @ dep @ b))"
  unfolding fabric_jars_iff jars_loop_iff ebind_eq_Inr contains_iff by blast

lemma embedded_jars_spec:
  "embedded_jars jar dep \<longleftrightarrow>
     (\<exists>name \<in> set (namelist jar).
        (startswith name ''META-INF/jars/'' \<or> startswith name ''META-INF/jarjar/'') \<and>
        endswith name ''.jar'' \<and>
        (\<exists>raw meta i. zip_read jar name = Inr raw \<and>
           extract_metadata_from_bytes raw = Some meta \<and>
           d_id meta = PStr i \<and> i \<noteq> [] \<and> lower i = dep))"
  unfolding embedded_jars_iff nested_probe_iff ..

lemma null_scan: "scan_mod_folder files_null [''mods/nk.jar''] = Inr registry_null"
  by code_simp

lemma null_export: "export_to_dot files_null registry_null = Inl AttributeError"
  by code_simp

lemma listed_probe:
  "is_dependency_embedded files_jars ''mods/listed.jar'' (PStr ''libx'') = Inr True"
  by code_simp

lemma broken_list_probe:
  "is_dependency_embedded files_jars ''mods/broken-list.jar'' (PStr ''libx'') = Inr False"
  by code_simp

text \<open>
  C7, as the claim states it, fails twice. The scanner keeps the dependency key \<open>None\<close>
  of a manifest that lists \<open>null\<close>, the graph builder passes it on, and the detector
  raises \<open>AttributeError\<close> on it, which ends the export. And in the declared-jars
  heuristic a list entry without \<open>get\<close> ends the loop: the entry \<open>libx\<close> behind it, found
  when the list holds it alone, is never examined.
\<close>

theorem detector_counterexample:
  "scan_mod_folder files_null [''mods/nk.jar''] = Inr registry_null \<and>
   is_dependency_embedded files_null ''mods/nk.jar'' PNone = Inl AttributeError \<and>
   export_to_dot files_null registry_null = Inl AttributeError \<and>
   is_dependency_embedded files_jars ''mods/listed.jar'' (PStr ''libx'') = Inr True \<and>
   is_dependency_embedded files_jars ''mods/broken-list.jar'' (PStr ''libx'') = Inr False"
  using null_scan null_export listed_probe broken_list_probe
  by (simp add: is_dependency_embedded_def)

text \<open>
  C7, amended. For every archive path and every identifier that is a string, the detector
  raises nothing and returns a boolean: false when the archive cannot be opened, otherwise
  true exactly when one of the four heuristics holds. The nested-jar heuristic holds when
  some entry under one of the two prefixes with the \<open>.jar\<close> suffix can be read, yields
  metadata, and its non-empty string id equals the identifier up to case; an entry that
  cannot be read or yields no metadata counts for nothing and the other entries and
  heuristics are still evaluated. The declared-jars heuristic holds when the manifest
  loads, its \<open>jars\<close> value can be iterated, and some entry has a string id that contains the
  identifier, all entries before it having string ids that do not: a failure in the manifest
  or in an earlier entry ends this heuristic as not embedded.
\<close>

theorem embedding_detector_on_strings:
  "is_dependency_embedded files p (PStr s) =
     Inr (\<exists>jar. open_path files p = Some jar \<and>
       ((\<exists>name \<in> set (namelist jar).
           (startswith name ''META-INF/jars/'' \<or> startswith name ''META-INF/jarjar/'') \<and>
           endswith name ''.jar'' \<and>
           (\<exists>raw meta i. zip_read jar name = Inr raw \<and>
              extract_metadata_from_bytes raw = Some meta \<and>
              d_id meta = PStr i \<and> i \<noteq> [] \<and> lower i = lower s)) \<or>
        (\<exists>n \<in> set (namelist jar). startswith n (''assets/'' @ lower s @ ''/'') \<or>
                                    startswith n (''data/'' @ lower s @ ''/'')) \<or>
        (\<exists>name \<in> set (namelist jar).
           (startswith (lower name) (lower s @ ''/'') \<or>
            startswith (lower name) (''com/'' @ lower s @ ''/'') \<or>
            startswith (lower name) (''net/'' @ lower s @ ''/'') \<or>
            startswith (lower name) (''io/'' @ lower s @ ''/'')) \<and>
           endswith (lower name) ''.class'') \<or>
        (''fabric.mod.json'' \<in> set (namelist jar) \<and>
         (\<exists>data jars entries pre e post i.
            json_load jar ''fabric.mod.json'' = Inr data \<and>
            py_get data (PStr ''jars'') (PList []) = Inr jars \<and>
            py_iter jars = Inr entries \<and>
            entries = pre @ e # post \<and>
            (\<forall>x \<in> set pre. \<exists>j. py_get x (PStr ''id'') (PStr []) = Inr (PStr j) \<and>
                                  \<not> (\<exists>a b. lower j = a @ lower s @ b)) \<and>
            py_get e (PStr ''id'') (PStr []) = Inr (PStr i) \<and>
            (\<exists>a b. lower i = a @ lower s @ b)))))"
proof (cases "open_path files p")
  case None
  then show ?thesis by (simp add: detector_value)
next
  case (Some jar)
  show ?thesis
    unfolding detector_value Some embedded_jars_spec namespace_folders_iff class_packages_iff
      fabric_jars_spec
    by simp
qed

theorem embedding_detector_on_strings_witness:
  "open_path files_host ''mods/host.jar'' = Some zip_host \<and>
   zip_read zip_host ''META-INF/jars/bad.jar'' = Inl ReadError \<and>
   zip_read zip_host ''META-INF/jars/junk.jar'' = Inr (Blob None None None) \<and>
   extract_metadata_from_bytes (Blob None None None) = None \<and>
   is_dependency_embedded files_host ''mods/host.jar'' (PStr ''LibX'') = Inr True"
proof -
  note t = embedding_detector_on_strings[of files_host "''mods/host.jar''" "''LibX''"]
  have o: "open_path files_host ''mods/host.jar'' = Some zip_host"
    by (simp add: open_path_def files_host_def)
  have b: "zip_read zip_host ''META-INF/jars/bad.jar'' = Inl ReadError"
    by (simp add: zip_read_def zip_host_def)
  have j: "zip_read zip_host ''META-INF/jars/junk.jar'' = Inr (Blob None None None)"
    by (simp add: zip_read_def zip_host_def)
  have jn: "extract_metadata_from_bytes (Blob None None None) = None"
    by (simp add: extract_metadata_from_bytes_def)
  have n: "''META-INF/jars/libx.jar'' \<in> set (namelist zip_host)"
    by (simp add: namelist_def zip_host_def)
  have s: "startswith ''META-INF/jars/libx.jar'' ''META-INF/jars/''"
    by (simp add: startswith_def)
  have e: "endswith ''META-INF/jars/libx.jar'' ''.jar''"
    by (simp add: endswith_def)
  have r: "zip_read zip_host ''META-INF/jars/libx.jar'' = Inr nested_libx"
    by (simp add: zip_read_def zip_host_def)
  have m: "extract_metadata_from_bytes nested_libx =
             Some \<lparr>d_id = PStr ''LibX'', d_name = PStr ''LibX'', d_depends = [], d_path = None\<rparr>"
    by code_simp
  have i: "d_id \<lparr>d_id = PStr ''LibX'', d_name = PStr ''LibX'', d_depends = [], d_path = None\<rparr>
             = PStr ''LibX'' \<and> ''LibX'' \<noteq> [] \<and> lower ''LibX'' = lower ''LibX''"
    by simp
  from r m i have
    "\<exists>raw meta i. zip_read zip_host ''META-INF/jars/libx.jar'' = Inr raw \<and>
       extract_metadata_from_bytes raw = Some meta \<and>
       d_id meta = PStr i \<and> i \<noteq> [] \<and> lower i = lower ''LibX''"
    by blast
  with n s e have
    "\<exists>name \<in> set (namelist zip_host).
       (startswith name ''META-INF/jars/'' \<or> startswith name ''META-INF/jarjar/'') \<and>
       endswith name ''.jar'' \<and>
       (\<exists>raw meta i. zip_read zip_host name = Inr raw \<and>
          extract_metadata_from_bytes raw = Some meta \<and>
          d_id meta = PStr i \<and> i \<noteq> [] \<and> lower i = lower ''LibX'')"
    by blast
  with o t have "is_dependency_embedded files_host ''mods/host.jar'' (PStr ''LibX'') = Inr True"
    by auto
  with o b j jn show ?thesis by simp
qed

section \<open>Membership and lower case\<close>

lemma py_in_PStr: "py_in (PStr s) xs \<longleftrightarrow> PStr s \<in> set xs"
  by (auto simp: py_in_def list_ex_iff)

lemma should_ignore_lower: "should_ignore (PStr s) = should_ignore (PStr (lower s))"
  by (simp add: should_ignore_def lower_idem lower_Nil)

lemma embedded_lower:
  "is_dependency_embedded files p (PStr s) = is_dependency_embedded files p (PStr (lower s))"
  by (simp add: is_dependency_embedded_def lower_idem)

section \<open>The scanner\<close>

lemma empty_not_ignored: "[] \<notin> set IGNORED_MODS"
  by (simp add: IGNORED_MODS_def)

lemma should_ignore_False: "should_ignore v = Inr False \<Longrightarrow> \<not> excluded v"
  by (cases v) (auto simp: should_ignore_def excluded_def empty_not_ignored lower_def split: if_splits)

lemma should_ignore_truthy:
  "truthy v \<Longrightarrow> should_ignore v = Inr False \<Longrightarrow>
   \<exists>s. v = PStr s \<and> s \<noteq> [] \<and> lower s \<notin> set IGNORED_MODS"
  by (cases v) (auto simp: should_ignore_def split: if_splits)

lemma should_ignore_total: "str_or_falsy v \<Longrightarrow> \<exists>b. should_ignore v = Inr b"
  by (cases v) (auto simp: should_ignore_def str_or_falsy_def)

lemma pd_update_keys_subset:
  "set (pd_keys (pd_update d k v)) \<subseteq> insert k (set (pd_keys d))"
  by (auto simp: keys_pd_update)

lemma filter_depends_keys:
  "filter_depends old ks new = Inr res \<Longrightarrow>
   \<forall>k \<in> set (pd_keys new). should_ignore k = Inr False \<Longrightarrow>
   \<forall>k \<in> set (pd_keys res). should_ignore k = Inr False"
proof (induction ks arbitrary: new)
  case Nil
  then show ?case by simp
next
  case (Cons d ds)
  from Cons.prems(1) obtain ignored where i: "should_ignore d = Inr ignored"
    by (auto simp: ebind_eq_Inr)
  show ?case
  proof (cases ignored)
    case True
    with Cons.prems(1) i have "filter_depends old ds new = Inr res" by simp
    from Cons.IH[OF this Cons.prems(2)] show ?thesis .
  next
    case False
    with Cons.prems(1) i obtain m where "pd_lookup old d = Some m"
      and r: "filter_depends old ds (pd_update new d m) = Inr res"
      by (auto split: option.splits)
    have "\<forall>k \<in> set (pd_keys (pd_update new d m)). should_ignore k = Inr False"
      using pd_update_keys_subset[of new d m] Cons.prems(2) i False by auto
    from Cons.IH[OF r this] show ?thesis .
  qed
qed

lemma pd_lookup_key: "k \<in> set (pd_keys d) \<Longrightarrow> \<exists>v. pd_lookup d k = Some v"
  by (induction d) (force simp: pd_keys_def)+

lemma filter_depends_total:
  "list_all str_or_falsy ks \<Longrightarrow> set ks \<subseteq> set (pd_keys old) \<Longrightarrow>
   \<exists>res. filter_depends old ks new = Inr res"
proof (induction ks arbitrary: new)
  case Nil
  then show ?case by simp
next
  case (Cons d ds)
  from Cons.prems(1) should_ignore_total[of d] obtain b where b: "should_ignore d = Inr b"
    by auto
  from Cons.prems(2) pd_lookup_key[of d old] obtain m where m: "pd_lookup old d = Some m"
    by auto
  from Cons.prems have ds: "list_all str_or_falsy ds" "set ds \<subseteq> set (pd_keys old)"
    by auto
  show ?case
    using b m Cons.IH[OF ds] by simp
qed

lemma pd_update_str_entries:
  "set (pd_update d (PStr s) v) \<subseteq> insert (PStr s, v) (set d)"
  by (induction d) (auto split: if_splits)

lemma scan_loop_clean:
  "scan_loop files jars mods = Inr mods' \<Longrightarrow> \<forall>e \<in> set mods. clean_entry e \<Longrightarrow>
   \<forall>e \<in> set mods'. clean_entry e"
proof (induction jars arbitrary: mods)
  case Nil
  then show ?case by simp
next
  case (Cons jar jars)
  show ?case
  proof (cases "extract_mod_metadata files jar")
    case None
    with Cons.prems(1) have "scan_loop files jars mods = Inr mods'" by simp
    from Cons.IH[OF this Cons.prems(2)] show ?thesis .
  next
    case (Some info)
    show ?thesis
    proof (cases "truthy (d_id info)")
      case False
      with Some Cons.prems(1) have "scan_loop files jars mods = Inr mods'" by simp
      from Cons.IH[OF this Cons.prems(2)] show ?thesis .
    next
      case True
      with Some Cons.prems(1) obtain ignored where i: "should_ignore (d_id info) = Inr ignored"
        by (auto simp: ebind_eq_Inr)
      show ?thesis
      proof (cases ignored)
        case True
        with \<open>truthy (d_id info)\<close> i Some Cons.prems(1)
        have "scan_loop files jars mods = Inr mods'" by simp
        from Cons.IH[OF this Cons.prems(2)] show ?thesis .
      next
        case False
        with \<open>truthy (d_id info)\<close> i Some Cons.prems(1) obtain deps mods1 where
          f: "filter_depends (d_depends info) (pd_keys (d_depends info)) [] = Inr deps" and
          s: "pd_set mods (d_id info) (info\<lparr>d_depends := deps\<rparr>) = Inr mods1" and
          r: "scan_loop files jars mods1 = Inr mods'"
          by (auto simp: ebind_eq_Inr)
        from should_ignore_truthy[OF \<open>truthy (d_id info)\<close>] i False
        obtain s' where id: "d_id info = PStr s'" "s' \<noteq> []" "lower s' \<notin> set IGNORED_MODS"
          by auto
        from filter_depends_keys[OF f] have "\<forall>k \<in> set (pd_keys deps). should_ignore k = Inr False"
          by (simp add: pd_keys_def)
        then have d: "\<forall>k \<in> set (pd_keys deps). \<not> excluded k"
          using should_ignore_False by blast
        have new: "clean_entry (PStr s', info\<lparr>d_depends := deps\<rparr>)"
          using id d by (simp add: clean_entry_def)
        from s have "mods1 = pd_update mods (PStr s') (info\<lparr>d_depends := deps\<rparr>)"
          by (simp add: pd_set_def id)
        with pd_update_str_entries[of mods s' "info\<lparr>d_depends := deps\<rparr>"] new Cons.prems(2)
        have "\<forall>e \<in> set mods1. clean_entry e" by blast
        from Cons.IH[OF r this] show ?thesis .
      qed
    qed
  qed
qed

lemma scan_loop_total:
  "list_all (scannable files) jars \<Longrightarrow> \<exists>mods'. scan_loop files jars mods = Inr mods'"
proof (induction jars arbitrary: mods)
  case Nil
  then show ?case by simp
next
  case (Cons jar jars)
  from Cons.prems have rest: "list_all (scannable files) jars" and j: "scannable files jar"
    by auto
  show ?case
  proof (cases "extract_mod_metadata files jar")
    case None
    then show ?thesis using Cons.IH[OF rest] by simp
  next
    case (Some info)
    with j have i: "str_or_falsy (d_id info)"
      and k: "list_all str_or_falsy (pd_keys (d_depends info))"
      by (auto simp: scannable_def)
    from should_ignore_total[OF i] obtain b where b: "should_ignore (d_id info) = Inr b" by blast
    from filter_depends_total[OF k, of "d_depends info" "[]"] obtain deps where
      f: "filter_depends (d_depends info) (pd_keys (d_depends info)) [] = Inr deps"
      by auto
    show ?thesis
    proof (cases "truthy (d_id info)")
      case False
      then show ?thesis using Some Cons.IH[OF rest] by simp
    next
      case True
      with i have "hashable (d_id info)"
        by (cases "d_id info") (auto simp: str_or_falsy_def)
      then show ?thesis
        using Some True b f Cons.IH[OF rest] by (simp add: pd_set_def)
    qed
  qed
qed

text \<open>
  C6. Whenever the scanner returns a registry, every entry is keyed by its descriptor's id,
  the key is a non-empty string that does not match the exclusion set, and no key of the
  descriptor's depends mapping matches the exclusion set. The scanner does return a
  registry for every folder whose archives carry only strings or falsy values as ids and
  dependency keys.
\<close>

theorem scanned_registry_is_clean:
  "(list_all (scannable files) folder \<longrightarrow> (\<exists>mods. scan_mod_folder files folder = Inr mods)) \<and>
   (\<forall>mods k d. scan_mod_folder files folder = Inr mods \<and> (k, d) \<in> set mods \<longrightarrow>
      d_id d = k \<and>
      (\<exists>s. k = PStr s \<and> s \<noteq> [] \<and> lower s \<notin> set IGNORED_MODS) \<and>
      (\<forall>dep \<in> set (pd_keys (d_depends d)). \<not> excluded dep))"
proof (intro conjI allI impI)
  assume "list_all (scannable files) folder"
  then show "\<exists>mods. scan_mod_folder files folder = Inr mods"
    unfolding scan_mod_folder_def by (rule scan_loop_total)
next
  fix mods k d
  assume a: "scan_mod_folder files folder = Inr mods \<and> (k, d) \<in> set mods"
  then have "scan_loop files folder [] = Inr mods" by (simp add: scan_mod_folder_def)
  from scan_loop_clean[OF this] a have c: "clean_entry (k, d)" by auto
  from c show "d_id d = k" by (simp add: clean_entry_def)
  from c show "\<exists>s. k = PStr s \<and> s \<noteq> [] \<and> lower s \<notin> set IGNORED_MODS" by (simp add: clean_entry_def)
  from c show "\<forall>dep \<in> set (pd_keys (d_depends d)). \<not> excluded dep" by (simp add: clean_entry_def)
qed


lemma scan_a: "extract_mod_metadata files_scan ''mods/a.jar'' =
   Some \<lparr>d_id = PStr ''a'', d_name = PStr ''Mod A'',
          d_depends = [(PStr ''x'', PBool True), (PStr ''fabricloader'', PBool True), (PStr ''y'', PBool False)],
          d_path = Some ''mods/a.jar''\<rparr>"
  by (simp add: extract_mod_metadata_def open_path_def files_scan_def jar_a_def zip_a_def
      namelist_def attempt_def path_fabric_def json_load_def zip_read_def
      manifest_a_def py_or_def pd_set_def)

lemma scan_forge: "extract_mod_metadata files_scan ''mods/forge.jar'' =
   Some \<lparr>d_id = PStr ''Forge'', d_name = PStr ''Forge'', d_depends = [],
          d_path = Some ''mods/forge.jar''\<rparr>"
  by (simp add: extract_mod_metadata_def open_path_def files_scan_def zip_forge_def
      namelist_def attempt_def path_forge_def toml_load_def zip_read_def
      toml_forge_def py_or_def pd_set_def)

lemma scan_legacy: "extract_mod_metadata files_scan ''mods/legacy.jar'' =
     Some \<lparr>d_id = PStr ''legacy'', d_name = PStr ''legacy'',
           d_depends = [(PStr ''lib'', PBool True)], d_path = Some ''mods/legacy.jar''\<rparr>"
  by (simp add: extract_mod_metadata_def open_path_def files_scan_def zip_broken_def
      namelist_def attempt_def path_fabric_def path_mcmod_def json_load_def zip_read_def
      mcmod_legacy_def py_or_def pd_set_def)

lemma scan_notes: "extract_mod_metadata files_scan ''mods/notes.jar'' = None"
  by (simp add: extract_mod_metadata_def open_path_def files_scan_def)

lemma lower_simps: "lower [] = []" "lower (c # s) = lower_char c # lower s"
  by (simp_all add: lower_def)

lemma scan_result: "scan_mod_folder files_scan folder_scan = Inr registry_scan"
  by (simp add: scan_mod_folder_def folder_scan_def scan_a scan_forge scan_legacy scan_notes
      should_ignore_def lower_simps lower_char_def IGNORED_MODS_def pd_keys_def pd_set_def
      registry_scan_def)

lemma scan_scannable: "list_all (scannable files_scan) folder_scan"
  by (simp add: folder_scan_def scannable_def scan_a scan_forge scan_legacy scan_notes
      str_or_falsy_def pd_keys_def)


theorem scanned_registry_is_clean_witness:
  "list_all (scannable files_scan) folder_scan \<and>
   scan_mod_folder files_scan folder_scan = Inr registry_scan \<and>
   pd_keys registry_scan = [PStr ''a'', PStr ''legacy''] \<and>
   lower ''a'' \<notin> set IGNORED_MODS \<and>
   lower ''legacy'' \<notin> set IGNORED_MODS \<and>
   \<not> excluded (PStr ''x'') \<and> \<not> excluded (PStr ''y'') \<and> \<not> excluded (PStr ''lib'')"
proof -
  let ?a = "\<lparr>d_id = PStr ''a'', d_name = PStr ''Mod A'',
          d_depends = [(PStr ''x'', PBool True), (PStr ''y'', PBool False)],
          d_path = Some ''mods/a.jar''\<rparr>"
  let ?l = "\<lparr>d_id = PStr ''legacy'', d_name = PStr ''legacy'',
          d_depends = [(PStr ''lib'', PBool True)], d_path = Some ''mods/legacy.jar''\<rparr>"
  note t = scanned_registry_is_clean[of files_scan folder_scan]
  have k: "pd_keys registry_scan = [PStr ''a'', PStr ''legacy'']"
    by (simp add: pd_keys_def registry_scan_def)
  have ma: "(PStr ''a'', ?a) \<in> set registry_scan" and ml: "(PStr ''legacy'', ?l) \<in> set registry_scan"
    by (simp_all add: registry_scan_def)
  from t scan_result ma have
    a: "(\<exists>s. PStr ''a'' = PStr s \<and> s \<noteq> [] \<and> lower s \<notin> set IGNORED_MODS) \<and>
        (\<forall>dep \<in> set (pd_keys (d_depends ?a)). \<not> excluded dep)"
    by blast
  from t scan_result ml have
    l: "(\<exists>s. PStr ''legacy'' = PStr s \<and> s \<noteq> [] \<and> lower s \<notin> set IGNORED_MODS) \<and>
        (\<forall>dep \<in> set (pd_keys (d_depends ?l)). \<not> excluded dep)"
    by blast
  from a have "lower ''a'' \<notin> set IGNORED_MODS" "\<not> excluded (PStr ''x'')" "\<not> excluded (PStr ''y'')"
    by (simp_all add: pd_keys_def)
  moreover from l have "lower ''legacy'' \<notin> set IGNORED_MODS" "\<not> excluded (PStr ''lib'')"
    by (simp_all add: pd_keys_def)
  ultimately show ?thesis using scan_scannable scan_result k by blast
qed

section \<open>The graph builder\<close>

lemma probe_all_result:
  "probe_all files ms dep = Inr found \<Longrightarrow>
   found = list_ex (\<lambda>m. case d_path m of None \<Rightarrow> False
                          | Some p \<Rightarrow> is_dependency_embedded files p dep = Inr True) ms"
proof (induction ms)
  case Nil
  then show ?case by simp
next
  case (Cons m ms)
  from Cons.prems obtain p hit where p: "d_path m = Some p"
    and h: "is_dependency_embedded files p dep = Inr hit"
    and r: "(if hit then Inr True else probe_all files ms dep) = Inr found"
    by (auto simp: ebind_eq_Inr split: option.splits)
  show ?case
  proof (cases hit)
    case True
    with r p h show ?thesis by simp
  next
    case False
    with r have "probe_all files ms dep = Inr found" by simp
    from Cons.IH[OF this] p h False show ?thesis by simp
  qed
qed

lemma probe_all_str:
  "probe_all files (m # ms) dep = Inr found \<Longrightarrow> is_str dep"
  by (cases dep) (auto simp: ebind_eq_Inr is_dependency_embedded_def split: option.splits)

lemma edge_step_result:
  assumes "edge_step files mods (pd_keys mods) mod_id item st = Inr st'"
  shows "st' = record_edge files mods (mod_id, item) st"
proof (cases "py_in (fst item) (pd_keys mods)")
  case True
  with assms show ?thesis
    by (simp add: edge_step_def record_edge_def edge_status_def satisfied_def Let_def)
next
  case False
  with assms obtain found where f: "probe_all files (pd_values mods) (fst item) = Inr found"
    by (auto simp: edge_step_def Let_def ebind_eq_Inr)
  from probe_all_result[OF f] False have s: "satisfied files mods (fst item) = found"
    by (simp add: satisfied_def)
  from assms False f show ?thesis
    by (auto simp: edge_step_def record_edge_def edge_status_def s Let_def)
qed

lemma edge_step_str:
  assumes "edge_step files mods (pd_keys mods) mod_id item st = Inr st'"
    and "mods \<noteq> []"
    and "edge_status files mods item \<noteq> Satisfied"
  shows "is_str (fst item)"
proof -
  from assms(3) have n: "\<not> py_in (fst item) (pd_keys mods)"
    by (auto simp: edge_status_def satisfied_def split: if_splits)
  with assms(1) obtain found where f: "probe_all files (pd_values mods) (fst item) = Inr found"
    by (auto simp: edge_step_def Let_def ebind_eq_Inr)
  from assms(2) obtain m ms where v: "pd_values mods = m # ms"
    by (cases mods) (auto simp: pd_values_def)
  from f[unfolded v] show ?thesis by (rule probe_all_str)
qed

lemma depends_loop_result:
  "depends_loop files mods (pd_keys mods) mod_id items st = Inr st' \<Longrightarrow>
   st' = fold (record_edge files mods) (map (\<lambda>item. (mod_id, item)) items) st \<and>
   (mods \<noteq> [] \<longrightarrow>
      (\<forall>item \<in> set items. edge_status files mods item \<noteq> Satisfied \<longrightarrow> is_str (fst item)))"
proof (induction items arbitrary: st)
  case Nil
  then show ?case by simp
next
  case (Cons item items)
  from Cons.prems obtain st1 where
    s: "edge_step files mods (pd_keys mods) mod_id item st = Inr st1" and
    r: "depends_loop files mods (pd_keys mods) mod_id items st1 = Inr st'"
    by (auto simp: ebind_eq_Inr)
  from edge_step_result[OF s] Cons.IH[OF r] edge_step_str[OF s]
  show ?case by auto
qed

lemma edges_loop_result:
  "edges_loop files mods (pd_keys mods) entries st = Inr st' \<Longrightarrow>
   st' = fold (record_edge files mods) (all_items entries) st \<and>
   (mods \<noteq> [] \<longrightarrow>
      (\<forall>e \<in> set (all_items entries).
         edge_status files mods (snd e) \<noteq> Satisfied \<longrightarrow> is_str (fst (snd e))))"
proof (induction entries arbitrary: st)
  case Nil
  then show ?case by (simp add: all_items_def)
next
  case (Cons entry entries)
  from Cons.prems obtain st1 where
    s: "depends_loop files mods (pd_keys mods) (fst entry) (d_depends (snd entry)) st = Inr st1" and
    r: "edges_loop files mods (pd_keys mods) entries st1 = Inr st'"
    by (auto simp: ebind_eq_Inr)
  from depends_loop_result[OF s] Cons.IH[OF r]
  show ?case by (fastforce simp: all_items_def)
qed

lemma missing_are_strings:
  assumes "edges_loop files mods (pd_keys mods) mods st = Inr st'"
    and "s \<noteq> Satisfied"
  shows "list_all is_str
           (map (\<lambda>e. fst (snd e)) (filter (\<lambda>e. edge_status files mods (snd e) = s) (all_items mods)))"
proof (cases "mods = []")
  case True
  then show ?thesis by (simp add: all_items_def)
next
  case False
  with edges_loop_result[OF assms(1)] assms(2) show ?thesis
    by (auto simp: list_all_iff)
qed

lemma probe_all_typed:
  "list_all (\<lambda>m. d_path m \<noteq> None) ms \<Longrightarrow>
   probe_all files ms (PStr s) =
     Inr (list_ex (\<lambda>m. case d_path m of None \<Rightarrow> False
                          | Some p \<Rightarrow> is_dependency_embedded files p (PStr s) = Inr True) ms)"
proof (induction ms)
  case Nil
  show ?case by simp
next
  case (Cons m ms)
  from Cons.prems obtain p where p: "d_path m = Some p" by auto
  obtain b where b: "is_dependency_embedded files p (PStr s) = Inr b"
    using detector_value[of files p s] by blast
  from Cons.prems have "list_all (\<lambda>m. d_path m \<noteq> None) ms" by simp
  from Cons.IH[OF this] show ?case
    using p b by simp
qed

lemma edge_step_typed:
  assumes "list_all (\<lambda>m. d_path m \<noteq> None) (pd_values mods)"
    and "is_str (fst item)"
  shows "edge_step files mods (pd_keys mods) mod_id item st
           = Inr (record_edge files mods (mod_id, item) st)"
proof -
  from assms(2) obtain s where s: "fst item = PStr s" by (cases "fst item") auto
  show ?thesis
    using probe_all_typed[OF assms(1), of files s]
    by (auto simp: edge_step_def record_edge_def edge_status_def satisfied_def s py_in_PStr Let_def)
qed

lemma depends_loop_typed:
  assumes "list_all (\<lambda>m. d_path m \<noteq> None) (pd_values mods)"
  shows "list_all (\<lambda>item. is_str (fst item)) items \<Longrightarrow>
     depends_loop files mods (pd_keys mods) mod_id items st
       = Inr (fold (record_edge files mods) (map (\<lambda>item. (mod_id, item)) items) st)"
proof (induction items arbitrary: st)
  case Nil
  show ?case by simp
next
  case (Cons item items)
  then show ?case
    using edge_step_typed[OF assms, of item files mod_id st] by simp
qed

lemma edges_loop_typed:
  assumes "list_all (\<lambda>m. d_path m \<noteq> None) (pd_values mods)"
  shows "list_all (\<lambda>entry. list_all (\<lambda>item. is_str (fst item)) (d_depends (snd entry))) entries \<Longrightarrow>
     edges_loop files mods (pd_keys mods) entries st
       = Inr (fold (record_edge files mods) (all_items entries) st)"
proof (induction entries arbitrary: st)
  case Nil
  show ?case by (simp add: all_items_def)
next
  case (Cons entry entries)
  then show ?case
    using depends_loop_typed[OF assms, of "d_depends (snd entry)" files "fst entry" st]
    by (simp add: all_items_def)
qed


lemma out_fold:
  "out (fold (record_edge files mods) es st) =
     out st @ map (\<lambda>e. edge_line (fst e) (fst (snd e)) (edge_status files mods (snd e))) es"
  by (induction es arbitrary: st) (auto simp: record_edge_def split: status.splits)

lemma required_fold:
  "missing_required (fold (record_edge files mods) es st) =
     fold (\<lambda>dep acc. set_add acc dep)
       (map (\<lambda>e. fst (snd e)) (filter (\<lambda>e. edge_status files mods (snd e) = Missing_required) es))
       (missing_required st)"
  by (induction es arbitrary: st) (auto simp: record_edge_def split: status.splits)

lemma optional_fold:
  "missing_optional (fold (record_edge files mods) es st) =
     fold (\<lambda>dep acc. set_add acc dep)
       (map (\<lambda>e. fst (snd e)) (filter (\<lambda>e. edge_status files mods (snd e) = Missing_optional) es))
       (missing_optional st)"
  by (induction es arbitrary: st) (auto simp: record_edge_def split: status.splits)

lemma set_add_str:
  "is_str d \<Longrightarrow> set_add acc d = (if d \<in> set acc then acc else acc @ [d])"
  by (cases d) (auto simp: set_add_def py_in_PStr)

lemma collect_str:
  "list_all is_str ds \<Longrightarrow>
   set (fold (\<lambda>dep acc. set_add acc dep) ds acc) = set acc \<union> set ds \<and>
   (distinct acc \<longrightarrow> distinct (fold (\<lambda>dep acc. set_add acc dep) ds acc))"
proof (induction ds arbitrary: acc)
  case Nil
  show ?case by simp
next
  case (Cons d ds)
  from Cons.prems have d: "is_str d" and ds: "list_all is_str ds" by auto
  show ?case
    using Cons.IH[OF ds, of "set_add acc d"] by (auto simp: set_add_str[OF d])
qed

lemma all_items_typed:
  "well_typed mods \<Longrightarrow> list_all (\<lambda>e. is_str (fst (snd e))) (all_items mods)"
  by (fastforce simp: well_typed_def all_items_def list_all_iff)

lemma missing_ids_props:
  assumes "list_all is_str
     (map (\<lambda>e. fst (snd e)) (filter (\<lambda>e. edge_status files mods (snd e) = s) (all_items mods)))"
  shows "set (missing_ids files mods s) =
           (\<lambda>e. fst (snd e)) ` {e \<in> set (all_items mods). edge_status files mods (snd e) = s}"
    and "distinct (missing_ids files mods s)"
    and "list_all is_str (missing_ids files mods s)"
proof -
  let ?ds = "map (\<lambda>e. fst (snd e))
               (filter (\<lambda>e. edge_status files mods (snd e) = s) (all_items mods))"
  from collect_str[OF assms, of "[]"] have
    a: "set (missing_ids files mods s) = set ?ds" and b: "distinct (missing_ids files mods s)"
    by (simp_all add: missing_ids_def)
  from a show "set (missing_ids files mods s) =
           (\<lambda>e. fst (snd e)) ` {e \<in> set (all_items mods). edge_status files mods (snd e) = s}"
    by simp
  from b show "distinct (missing_ids files mods s)" .
  from a assms show "list_all is_str (missing_ids files mods s)"
    by (auto simp: list_all_iff)
qed

lemma py_sorted_str:
  "list_all is_str s \<Longrightarrow> py_sorted s = Inr (map PStr (sort (map str_of s)))"
  by (simp add: py_sorted_def)

text \<open>The lines \<open>export_to_dot\<close> returns, whenever it returns.\<close>

lemma export_result:
  assumes "export_to_dot files mods = Inr lines"
  shows "lines =
     dot_header @ map (\<lambda>entry. Node (fst entry) (d_name (snd entry))) mods @
     edges_spec files mods @
     map MissingRequired (map PStr (sort (map str_of (missing_ids files mods Missing_required)))) @
     map MissingOptional (map PStr (sort (map str_of (missing_ids files mods Missing_optional)))) @
     [Text ''}'']"
    and "list_all is_str
     (map (\<lambda>e. fst (snd e))
        (filter (\<lambda>e. edge_status files mods (snd e) = Missing_required) (all_items mods)))"
    and "list_all is_str
     (map (\<lambda>e. fst (snd e))
        (filter (\<lambda>e. edge_status files mods (snd e) = Missing_optional) (all_items mods)))"
proof -
  let ?st0 = "\<lparr>missing_required = [], missing_optional = [],
               out = dot_header @ map (\<lambda>entry. Node (fst entry) (d_name (snd entry))) mods\<rparr>"
  from assms obtain st req opt where
    l: "edges_loop files mods (pd_keys mods) mods ?st0 = Inr st" and
    r: "py_sorted (missing_required st) = Inr req" and
    p: "py_sorted (missing_optional st) = Inr opt" and
    o: "lines = out st @ map MissingRequired req @ map MissingOptional opt @ [Text ''}'']"
    unfolding export_to_dot_def Let_def by (auto simp: ebind_eq_Inr)
  from edges_loop_result[OF l] have st: "st = fold (record_edge files mods) (all_items mods) ?st0"
    by simp
  show sr: "list_all is_str
     (map (\<lambda>e. fst (snd e))
        (filter (\<lambda>e. edge_status files mods (snd e) = Missing_required) (all_items mods)))"
    by (rule missing_are_strings[OF l]) simp
  show so: "list_all is_str
     (map (\<lambda>e. fst (snd e))
        (filter (\<lambda>e. edge_status files mods (snd e) = Missing_optional) (all_items mods)))"
    by (rule missing_are_strings[OF l]) simp
  have mr: "missing_required st = missing_ids files mods Missing_required"
    by (simp add: st required_fold missing_ids_def)
  have mo: "missing_optional st = missing_ids files mods Missing_optional"
    by (simp add: st optional_fold missing_ids_def)
  from r have req: "req = map PStr (sort (map str_of (missing_ids files mods Missing_required)))"
    by (simp add: mr py_sorted_str[OF missing_ids_props(3)[OF sr]])
  from p have opt: "opt = map PStr (sort (map str_of (missing_ids files mods Missing_optional)))"
    by (simp add: mo py_sorted_str[OF missing_ids_props(3)[OF so]])
  show "lines =
     dot_header @ map (\<lambda>entry. Node (fst entry) (d_name (snd entry))) mods @
     edges_spec files mods @
     map MissingRequired (map PStr (sort (map str_of (missing_ids files mods Missing_required)))) @
     map MissingOptional (map PStr (sort (map str_of (missing_ids files mods Missing_optional)))) @
     [Text ''}'']"
    by (simp add: o req opt st out_fold edges_spec_def)
qed

text \<open>On a typed registry nothing raises.\<close>

lemma export_total:
  assumes "well_typed mods"
  shows "\<exists>lines. export_to_dot files mods = Inr lines"
proof -
  from assms have p: "list_all (\<lambda>m. d_path m \<noteq> None) (pd_values mods)"
    and i: "list_all (\<lambda>entry. list_all (\<lambda>item. is_str (fst item)) (d_depends (snd entry))) mods"
    by (auto simp: well_typed_def pd_values_def list_all_iff)
  have t: "\<And>s. list_all is_str
     (map (\<lambda>e. fst (snd e)) (filter (\<lambda>e. edge_status files mods (snd e) = s) (all_items mods)))"
    using all_items_typed[OF assms] by (auto simp: list_all_iff)
  show ?thesis
    unfolding export_to_dot_def Let_def edges_loop_typed[OF p i]
    by (simp add: required_fold optional_fold missing_ids_def[symmetric] py_sorted_str
        missing_ids_props(3)[OF t])
qed

lemma filter_edges_spec: "filter is_edge (edges_spec files mods) = edges_spec files mods"
proof -
  have "\<And>m d s. is_edge (edge_line m d s)"
  proof -
    fix m d s show "is_edge (edge_line m d s)" by (cases s) simp_all
  qed
  then show ?thesis by (simp add: edges_spec_def)
qed

lemma filter_edges_header: "filter is_edge dot_header = []"
  by (simp add: dot_header_def)

text \<open>
  C1. Whenever the graph builder returns, the edges it emits are, in the order of the two
  loops, one per mod and (dependency, meta) pair of the registry: the plain edge when the
  dependency is a key of the registry or the probe of some registered mod's archive
  returns true, otherwise the red edge when \<open>meta["required"]\<close> is true and the yellow
  edge when it is false. It does return for every registry whose descriptors carry their
  source path and whose dependency identifiers are strings.
\<close>

theorem edges_are_classified:
  "(well_typed mods \<longrightarrow> (\<exists>lines. export_to_dot files mods = Inr lines)) \<and>
   (\<forall>lines. export_to_dot files mods = Inr lines \<longrightarrow>
      filter is_edge lines = edges_spec files mods)"
proof (intro conjI allI impI)
  assume "well_typed mods"
  then show "\<exists>lines. export_to_dot files mods = Inr lines" by (rule export_total)
next
  fix lines
  assume "export_to_dot files mods = Inr lines"
  from export_result(1)[OF this] show "filter is_edge lines = edges_spec files mods"
    by (simp add: filter_edges_spec filter_edges_header filter_map o_def)
qed

lemma graph_edges:
  "edges_spec files_graph registry_graph =
     [Edge (PStr ''host'') (PStr ''libx''), Edge (PStr ''host'') (PStr ''a''),
      EdgeRed (PStr ''host'') (PStr ''gone''), EdgeYellow (PStr ''host'') (PStr ''maybe'')]"
  by code_simp

theorem edges_are_classified_witness:
  "well_typed registry_graph \<and>
   (\<exists>lines. export_to_dot files_graph registry_graph = Inr lines \<and>
      filter is_edge lines =
        [Edge (PStr ''host'') (PStr ''libx''), Edge (PStr ''host'') (PStr ''a''),
         EdgeRed (PStr ''host'') (PStr ''gone''), EdgeYellow (PStr ''host'') (PStr ''maybe'')])"
proof -
  note t = edges_are_classified[of registry_graph files_graph]
  have w: "well_typed registry_graph"
    by code_simp
  with t obtain lines where e: "export_to_dot files_graph registry_graph = Inr lines"
    by blast
  with t have "filter is_edge lines = edges_spec files_graph registry_graph"
    by blast
  with w e show ?thesis unfolding graph_edges by blast
qed

section \<open>Placeholder nodes\<close>

lemma sorted_ids:
  assumes "list_all is_str ids" and "distinct ids"
  shows "set (map PStr (sort (map str_of ids))) = set ids"
    and "distinct (map PStr (sort (map str_of ids)))"
proof -
  have r: "\<And>x. x \<in> set ids \<Longrightarrow> PStr (str_of x) = x"
  proof -
    fix x assume "x \<in> set ids"
    with assms(1) have "is_str x" by (simp add: list_all_iff)
    then show "PStr (str_of x) = x" by (cases x) simp_all
  qed
  have "set (map PStr (sort (map str_of ids))) = (\<lambda>x. PStr (str_of x)) ` set ids"
    by (simp add: image_image)
  also have "\<dots> = set ids" using r by force
  finally show "set (map PStr (sort (map str_of ids))) = set ids" .
  have "inj_on str_of (set ids)"
    by (rule inj_onI) (metis r)
  with assms(2) have "distinct (map str_of ids)" by (simp add: distinct_map)
  then have "distinct (sort (map str_of ids))" by simp
  then show "distinct (map PStr (sort (map str_of ids)))"
    by (simp add: distinct_map inj_on_def)
qed

lemma count_list_distinct: "distinct xs \<Longrightarrow> count_list xs x = (if x \<in> set xs then 1 else 0)"
  by (induction xs) auto

lemma count_list_map_inj: "inj f \<Longrightarrow> count_list (map f xs) (f x) = count_list xs x"
  by (induction xs) (auto simp: inj_def)

lemma count_list_absent: "x \<notin> set xs \<Longrightarrow> count_list xs x = 0"
  by (induction xs) auto

lemma red_edge_iff:
  "(\<exists>m. EdgeRed m d \<in> set (edges_spec files mods)) \<longleftrightarrow>
     d \<in> (\<lambda>e. fst (snd e)) ` {e \<in> set (all_items mods). edge_status files mods (snd e) = Missing_required}"
proof
  assume "\<exists>m. EdgeRed m d \<in> set (edges_spec files mods)"
  then obtain m e where e: "e \<in> set (all_items mods)"
    and l: "EdgeRed m d = edge_line (fst e) (fst (snd e)) (edge_status files mods (snd e))"
    by (auto simp: edges_spec_def)
  from l have "edge_status files mods (snd e) = Missing_required \<and> fst (snd e) = d"
    by (cases "edge_status files mods (snd e)") simp_all
  with e show "d \<in> (\<lambda>e. fst (snd e)) ` {e \<in> set (all_items mods). edge_status files mods (snd e) = Missing_required}"
    by auto
next
  assume "d \<in> (\<lambda>e. fst (snd e)) ` {e \<in> set (all_items mods). edge_status files mods (snd e) = Missing_required}"
  then obtain e where e: "e \<in> set (all_items mods)" "edge_status files mods (snd e) = Missing_required"
    "fst (snd e) = d" by auto
  then have "EdgeRed (fst e) d \<in> set (edges_spec files mods)"
    by (force simp: edges_spec_def)
  then show "\<exists>m. EdgeRed m d \<in> set (edges_spec files mods)" by blast
qed

lemma yellow_edge_iff:
  "(\<exists>m. EdgeYellow m d \<in> set (edges_spec files mods)) \<longleftrightarrow>
     d \<in> (\<lambda>e. fst (snd e)) ` {e \<in> set (all_items mods). edge_status files mods (snd e) = Missing_optional}"
proof
  assume "\<exists>m. EdgeYellow m d \<in> set (edges_spec files mods)"
  then obtain m e where e: "e \<in> set (all_items mods)"
    and l: "EdgeYellow m d = edge_line (fst e) (fst (snd e)) (edge_status files mods (snd e))"
    by (auto simp: edges_spec_def)
  from l have "edge_status files mods (snd e) = Missing_optional \<and> fst (snd e) = d"
    by (cases "edge_status files mods (snd e)") simp_all
  with e show "d \<in> (\<lambda>e. fst (snd e)) ` {e \<in> set (all_items mods). edge_status files mods (snd e) = Missing_optional}"
    by auto
next
  assume "d \<in> (\<lambda>e. fst (snd e)) ` {e \<in> set (all_items mods). edge_status files mods (snd e) = Missing_optional}"
  then obtain e where e: "e \<in> set (all_items mods)" "edge_status files mods (snd e) = Missing_optional"
    "fst (snd e) = d" by auto
  then have "EdgeYellow (fst e) d \<in> set (edges_spec files mods)"
    by (force simp: edges_spec_def)
  then show "\<exists>m. EdgeYellow m d \<in> set (edges_spec files mods)" by blast
qed

lemma edges_spec_only_edges:
  "MissingRequired d \<notin> set (edges_spec files mods)" "MissingOptional d \<notin> set (edges_spec files mods)"
proof -
  have "\<And>l. l \<in> set (edges_spec files mods) \<Longrightarrow> is_edge l"
    using filter_edges_spec[of files mods] by (metis filter_id_conv)
  then show "MissingRequired d \<notin> set (edges_spec files mods)"
    "MissingOptional d \<notin> set (edges_spec files mods)"
    by fastforce+
qed


lemma count_nodes:
  "count_list (map (\<lambda>entry. Node (fst entry) (d_name (snd entry))) mods) (MissingRequired d) = 0"
  "count_list (map (\<lambda>entry. Node (fst entry) (d_name (snd entry))) mods) (MissingOptional d) = 0"
  by (induction mods) auto

lemma count_header:
  "count_list dot_header (MissingRequired d) = 0" "count_list dot_header (MissingOptional d) = 0"
  by (simp_all add: dot_header_def)

lemma count_placeholders:
  "count_list (map MissingRequired xs) (MissingRequired d) = count_list xs d"
  "count_list (map MissingOptional xs) (MissingOptional d) = count_list xs d"
  "count_list (map MissingRequired xs) (MissingOptional d) = 0"
  "count_list (map MissingOptional xs) (MissingRequired d) = 0"
  by (induction xs) auto

lemma red_in_out:
  "EdgeRed m d \<in> set (dot_header @ map (\<lambda>entry. Node (fst entry) (d_name (snd entry))) mods @
          edges_spec files mods @ map MissingRequired req @ map MissingOptional opt @ [Text t])
   \<longleftrightarrow> EdgeRed m d \<in> set (edges_spec files mods)"
  by (auto simp: dot_header_def)

lemma yellow_in_out:
  "EdgeYellow m d \<in> set (dot_header @ map (\<lambda>entry. Node (fst entry) (d_name (snd entry))) mods @
          edges_spec files mods @ map MissingRequired req @ map MissingOptional opt @ [Text t])
   \<longleftrightarrow> EdgeYellow m d \<in> set (edges_spec files mods)"
  by (auto simp: dot_header_def)

lemma two_scan: "scan_mod_folder files_two [''mods/p.jar'', ''mods/q.jar''] = Inr registry_two"
  by code_simp

lemma two_export:
  "export_to_dot files_two registry_two =
     Inr (dot_header @
          [Node (PStr ''p'') (PStr ''p''), Node (PStr ''q'') (PStr ''q''),
           EdgeRed (PStr ''p'') (PStr ''x''), EdgeYellow (PStr ''q'') (PStr ''x''),
           MissingRequired (PStr ''x''), MissingOptional (PStr ''x''), Text ''}''])"
  by code_simp

text \<open>
  C3, as the claim states it, fails: \<open>p\<close> requires \<open>x\<close> and \<open>q\<close> recommends it, \<open>x\<close> is
  neither installed nor bundled, and the graph declares the placeholder \<open>x\<close> twice, once
  as missing required and once as optional missing.
\<close>

theorem two_placeholders_counterexample:
  "scan_mod_folder files_two [''mods/p.jar'', ''mods/q.jar''] = Inr registry_two \<and>
   export_to_dot files_two registry_two =
     Inr (dot_header @
          [Node (PStr ''p'') (PStr ''p''), Node (PStr ''q'') (PStr ''q''),
           EdgeRed (PStr ''p'') (PStr ''x''), EdgeYellow (PStr ''q'') (PStr ''x''),
           MissingRequired (PStr ''x''), MissingOptional (PStr ''x''), Text ''}''])"
  using two_scan two_export by (rule conjI)

text \<open>
  C3, amended. Whenever the graph builder returns, then for every identifier the lines
  hold exactly one missing-required declaration if some edge to it is red and none
  otherwise, and exactly one optional-missing declaration if some edge to it is yellow
  and none otherwise. An identifier referenced by several mods in the same class is
  declared once; one that is required by one mod and optional for another is declared
  once in each class. The builder does return for every registry whose descriptors carry
  their source path and whose dependency identifiers are strings.
\<close>

theorem one_placeholder_per_class:
  "(well_typed mods \<longrightarrow> (\<exists>lines. export_to_dot files mods = Inr lines)) \<and>
   (\<forall>lines d. export_to_dot files mods = Inr lines \<longrightarrow>
      count_list lines (MissingRequired d) = (if (\<exists>m. EdgeRed m d \<in> set lines) then 1 else 0) \<and>
      count_list lines (MissingOptional d) = (if (\<exists>m. EdgeYellow m d \<in> set lines) then 1 else 0))"
proof (intro conjI allI impI)
  assume "well_typed mods"
  then show "\<exists>lines. export_to_dot files mods = Inr lines" by (rule export_total)
next
  fix lines d
  assume e: "export_to_dot files mods = Inr lines"
  let ?req = "map PStr (sort (map str_of (missing_ids files mods Missing_required)))"
  let ?opt = "map PStr (sort (map str_of (missing_ids files mods Missing_optional)))"
  let ?out = "dot_header @ map (\<lambda>entry. Node (fst entry) (d_name (snd entry))) mods @
          edges_spec files mods @ map MissingRequired ?req @ map MissingOptional ?opt @ [Text ''}'']"
  note x = export_result[OF e]
  note mr = missing_ids_props[OF x(2)]
  note mo = missing_ids_props[OF x(3)]
  have sreq: "set ?req = set (missing_ids files mods Missing_required)" and dreq: "distinct ?req"
    using sorted_ids[OF mr(3) mr(2)] by blast+
  have sopt: "set ?opt = set (missing_ids files mods Missing_optional)" and dopt: "distinct ?opt"
    using sorted_ids[OF mo(3) mo(2)] by blast+
  have r: "count_list ?out (MissingRequired d) = count_list ?req d"
    by (simp add: count_header count_nodes count_placeholders
        count_list_absent[OF edges_spec_only_edges(1)] del: map_map)
  have o: "count_list ?out (MissingOptional d) = count_list ?opt d"
    by (simp add: count_header count_nodes count_placeholders
        count_list_absent[OF edges_spec_only_edges(2)] del: map_map)
  have r': "count_list ?req d = (if (\<exists>m. EdgeRed m d \<in> set ?out) then 1 else 0)"
    unfolding red_in_out red_edge_iff count_list_distinct[OF dreq] sreq mr(1) ..
  have o': "count_list ?opt d = (if (\<exists>m. EdgeYellow m d \<in> set ?out) then 1 else 0)"
    unfolding yellow_in_out yellow_edge_iff count_list_distinct[OF dopt] sopt mo(1) ..
  from r r' show
    "count_list lines (MissingRequired d) = (if (\<exists>m. EdgeRed m d \<in> set lines) then 1 else 0)"
    unfolding x(1) by simp
  from o o' show
    "count_list lines (MissingOptional d) = (if (\<exists>m. EdgeYellow m d \<in> set lines) then 1 else 0)"
    unfolding x(1) by simp
qed

theorem one_placeholder_per_class_witness:
  "well_typed registry_two \<and>
   (\<exists>lines. export_to_dot files_two registry_two = Inr lines \<and>
      count_list lines (MissingRequired (PStr ''x'')) = 1 \<and>
      count_list lines (MissingOptional (PStr ''x'')) = 1 \<and>
      count_list lines (MissingRequired (PStr ''p'')) = 0)"
proof -
  note t = one_placeholder_per_class[of registry_two files_two]
  have w: "well_typed registry_two"
    by code_simp
  with t obtain lines where e: "export_to_dot files_two registry_two = Inr lines"
    by blast
  with t have
    c: "\<And>d. count_list lines (MissingRequired d) = (if (\<exists>m. EdgeRed m d \<in> set lines) then 1 else 0)"
       "\<And>d. count_list lines (MissingOptional d) = (if (\<exists>m. EdgeYellow m d \<in> set lines) then 1 else 0)"
    by blast+
  from e two_export have o: "lines = dot_header @
          [Node (PStr ''p'') (PStr ''p''), Node (PStr ''q'') (PStr ''q''),
           EdgeRed (PStr ''p'') (PStr ''x''), EdgeYellow (PStr ''q'') (PStr ''x''),
           MissingRequired (PStr ''x''), MissingOptional (PStr ''x''), Text ''}'']"
    by simp
  have "EdgeRed (PStr ''p'') (PStr ''x'') \<in> set lines"
    unfolding o by simp
  then have r: "\<exists>m. EdgeRed m (PStr ''x'') \<in> set lines" ..
  have "EdgeYellow (PStr ''q'') (PStr ''x'') \<in> set lines"
    unfolding o by simp
  then have y: "\<exists>m. EdgeYellow m (PStr ''x'') \<in> set lines" ..
  have n: "\<not> (\<exists>m. EdgeRed m (PStr ''p'') \<in> set lines)"
    unfolding o by (simp add: dot_header_def)
  from c(1)[of "PStr ''x''"] r have "count_list lines (MissingRequired (PStr ''x'')) = 1"
    by simp
  moreover from c(2)[of "PStr ''x''"] y have "count_list lines (MissingOptional (PStr ''x'')) = 1"
    by simp
  moreover from c(1)[of "PStr ''p''"] n have "count_list lines (MissingRequired (PStr ''p'')) = 0"
    by simp
  ultimately show ?thesis using w e by blast
qed

section \<open>The installed test\<close>

lemma edge_step_not_key:
  assumes "PStr dep \<notin> set (pd_keys mods)"
  shows "edge_step files mods (pd_keys mods) mod_id (PStr dep, required) st =
     ebind (probe_all files (pd_values mods) (PStr dep)) (\<lambda>found.
       Inr (if found then st\<lparr>out := out st @ [Edge mod_id (PStr dep)]\<rparr>
            else if truthy required then
              st\<lparr>missing_required := set_add (missing_required st) (PStr dep),
                 out := out st @ [EdgeRed mod_id (PStr dep)]\<rparr>
            else
              st\<lparr>missing_optional := set_add (missing_optional st) (PStr dep),
                 out := out st @ [EdgeYellow mod_id (PStr dep)]\<rparr>))"
proof (cases "probe_all files (pd_values mods) (PStr dep)")
  case (Inl e)
  with assms show ?thesis by (simp add: edge_step_def py_in_PStr Let_def)
next
  case (Inr found)
  with assms show ?thesis by (simp add: edge_step_def py_in_PStr Let_def)
qed

lemma edge_step_key:
  assumes "PStr dep \<in> set (pd_keys mods)"
  shows "edge_step files mods (pd_keys mods) mod_id (PStr dep, required) st =
     Inr (st\<lparr>out := out st @ [Edge mod_id (PStr dep)]\<rparr>)"
  using assms by (simp add: edge_step_def py_in_PStr Let_def)

lemma export_not_key:
  assumes e: "export_to_dot files mods = Inr lines"
    and m: "(m, d) \<in> set mods"
    and i: "(PStr dep, required) \<in> set (d_depends d)"
    and k: "PStr dep \<notin> set (pd_keys mods)"
    and n: "\<forall>x \<in> set (pd_values mods). \<forall>q. d_path x = Some q \<longrightarrow>
              is_dependency_embedded files q (PStr dep) \<noteq> Inr True"
  shows "(if truthy required then EdgeRed m (PStr dep) else EdgeYellow m (PStr dep)) \<in> set lines"
proof -
  from n have "\<not> list_ex (\<lambda>x. case d_path x of None \<Rightarrow> False
                 | Some q \<Rightarrow> is_dependency_embedded files q (PStr dep) = Inr True) (pd_values mods)"
    by (auto simp: list_ex_iff split: option.splits)
  with k have s: "\<not> satisfied files mods (PStr dep)"
    by (simp add: satisfied_def py_in_PStr)
  from m i have a: "(m, PStr dep, required) \<in> set (all_items mods)"
    by (force simp: all_items_def)
  have "edge_line m (PStr dep) (edge_status files mods (PStr dep, required))
          \<in> set (edges_spec files mods)"
    using a by (force simp: edges_spec_def)
  then have "(if truthy required then EdgeRed m (PStr dep) else EdgeYellow m (PStr dep))
          \<in> set (edges_spec files mods)"
    using s by (simp add: edge_status_def split: if_splits)
  then show ?thesis
    unfolding export_result(1)[OF e] by simp
qed

text \<open>
  C10. The test \<open>dep not in installed\<close> compares by exact equality. For a dependency that
  is a string and equals no registry key, be the difference only one of letter case, the
  inner loop body goes on to the probes and what it records depends on their outcome
  alone: the plain edge when a probe succeeds, the red or the yellow edge and the missing
  set otherwise; and whenever the graph is emitted for a registry in which no archive
  bundles such a dependency, its edge is the red or the yellow one. A dependency that is a
  registry key gets the plain edge without any probe. The exclusion filter and the
  embedding detector lower their argument first: they give the same result for an
  identifier and for its lower-case form.
\<close>

theorem installed_test_is_case_sensitive:
  "(PStr dep \<notin> set (pd_keys mods) \<longrightarrow>
      edge_step files mods (pd_keys mods) mod_id (PStr dep, required) st =
        ebind (probe_all files (pd_values mods) (PStr dep)) (\<lambda>found.
          Inr (if found then st\<lparr>out := out st @ [Edge mod_id (PStr dep)]\<rparr>
               else if truthy required then
                 st\<lparr>missing_required := set_add (missing_required st) (PStr dep),
                    out := out st @ [EdgeRed mod_id (PStr dep)]\<rparr>
               else
                 st\<lparr>missing_optional := set_add (missing_optional st) (PStr dep),
                    out := out st @ [EdgeYellow mod_id (PStr dep)]\<rparr>))) \<and>
   (PStr dep \<in> set (pd_keys mods) \<longrightarrow>
      edge_step files mods (pd_keys mods) mod_id (PStr dep, required) st =
        Inr (st\<lparr>out := out st @ [Edge mod_id (PStr dep)]\<rparr>)) \<and>
   (\<forall>lines m d.
      export_to_dot files mods = Inr lines \<and> (m, d) \<in> set mods \<and>
      (PStr dep, required) \<in> set (d_depends d) \<and>
      PStr dep \<notin> set (pd_keys mods) \<and>
      (\<forall>x \<in> set (pd_values mods). \<forall>q. d_path x = Some q \<longrightarrow>
         is_dependency_embedded files q (PStr dep) \<noteq> Inr True) \<longrightarrow>
      (if truthy required then EdgeRed m (PStr dep) else EdgeYellow m (PStr dep)) \<in> set lines) \<and>
   should_ignore (PStr dep) = should_ignore (PStr (lower dep)) \<and>
   is_dependency_embedded files p (PStr dep) = is_dependency_embedded files p (PStr (lower dep))"
proof (intro conjI impI allI)
  assume "PStr dep \<notin> set (pd_keys mods)"
  then show "edge_step files mods (pd_keys mods) mod_id (PStr dep, required) st =
        ebind (probe_all files (pd_values mods) (PStr dep)) (\<lambda>found.
          Inr (if found then st\<lparr>out := out st @ [Edge mod_id (PStr dep)]\<rparr>
               else if truthy required then
                 st\<lparr>missing_required := set_add (missing_required st) (PStr dep),
                    out := out st @ [EdgeRed mod_id (PStr dep)]\<rparr>
               else
                 st\<lparr>missing_optional := set_add (missing_optional st) (PStr dep),
                    out := out st @ [EdgeYellow mod_id (PStr dep)]\<rparr>))"
    by (rule edge_step_not_key)
next
  assume "PStr dep \<in> set (pd_keys mods)"
  then show "edge_step files mods (pd_keys mods) mod_id (PStr dep, required) st =
        Inr (st\<lparr>out := out st @ [Edge mod_id (PStr dep)]\<rparr>)"
    by (rule edge_step_key)
next
  fix lines m d
  assume "export_to_dot files mods = Inr lines \<and> (m, d) \<in> set mods \<and>
      (PStr dep, required) \<in> set (d_depends d) \<and>
      PStr dep \<notin> set (pd_keys mods) \<and>
      (\<forall>x \<in> set (pd_values mods). \<forall>q. d_path x = Some q \<longrightarrow>
         is_dependency_embedded files q (PStr dep) \<noteq> Inr True)"
  then show "(if truthy required then EdgeRed m (PStr dep) else EdgeYellow m (PStr dep)) \<in> set lines"
    using export_not_key[of files mods lines m d dep required] by blast
next
  show "should_ignore (PStr dep) = should_ignore (PStr (lower dep))"
    by (rule should_ignore_lower)
  show "is_dependency_embedded files p (PStr dep) = is_dependency_embedded files p (PStr (lower dep))"
    by (rule embedded_lower)
qed

lemma case_export:
  "export_to_dot files_case registry_case =
     Inr (dot_header @
          [Node (PStr ''JEI'') (PStr ''JEI''), Node (PStr ''user'') (PStr ''user''),
           EdgeRed (PStr ''user'') (PStr ''jei''), MissingRequired (PStr ''jei''), Text ''}''])"
  by code_simp

lemma case_scan:
  "scan_mod_folder files_case [''mods/jei.jar'', ''mods/user.jar''] = Inr registry_case"
  by code_simp

lemma case_probes:
  "is_dependency_embedded files_case ''mods/jei.jar'' (PStr ''jei'') = Inr False"
  "is_dependency_embedded files_case ''mods/user.jar'' (PStr ''jei'') = Inr False"
  by code_simp+

theorem installed_test_is_case_sensitive_witness:
  "scan_mod_folder files_case [''mods/jei.jar'', ''mods/user.jar''] = Inr registry_case \<and>
   pd_keys registry_case = [PStr ''JEI'', PStr ''user''] \<and>
   lower ''JEI'' = lower ''jei'' \<and>
   export_to_dot files_case registry_case =
     Inr (dot_header @
          [Node (PStr ''JEI'') (PStr ''JEI''), Node (PStr ''user'') (PStr ''user''),
           EdgeRed (PStr ''user'') (PStr ''jei''), MissingRequired (PStr ''jei''), Text ''}'']) \<and>
   EdgeRed (PStr ''user'') (PStr ''jei'')
     \<in> set (dot_header @
          [Node (PStr ''JEI'') (PStr ''JEI''), Node (PStr ''user'') (PStr ''user''),
           EdgeRed (PStr ''user'') (PStr ''jei''), MissingRequired (PStr ''jei''), Text ''}'']) \<and>
   should_ignore (PStr ''Forge'') = should_ignore (PStr ''forge'')"
proof -
  let ?lines = "dot_header @
          [Node (PStr ''JEI'') (PStr ''JEI''), Node (PStr ''user'') (PStr ''user''),
           EdgeRed (PStr ''user'') (PStr ''jei''), MissingRequired (PStr ''jei''), Text ''}'']"
  let ?u = "\<lparr>d_id = PStr ''user'', d_name = PStr ''user'',
              d_depends = [(PStr ''jei'', PBool True)], d_path = Some ''mods/user.jar''\<rparr>"
  note t = installed_test_is_case_sensitive[of "''jei''" registry_case files_case
      "PStr ''user''" "PBool True" "\<lparr>missing_required = [], missing_optional = [], out = []\<rparr>"
      "''mods/jei.jar''"]
  have k: "pd_keys registry_case = [PStr ''JEI'', PStr ''user'']"
    by (simp add: pd_keys_def registry_case_def)
  have nk: "PStr ''jei'' \<notin> set (pd_keys registry_case)"
    by (simp add: k)
  have l: "lower ''JEI'' = lower ''jei''"
    by code_simp
  have m: "(PStr ''user'', ?u) \<in> set registry_case"
    by (simp add: registry_case_def)
  have i: "(PStr ''jei'', PBool True) \<in> set (d_depends ?u)"
    by simp
  have n: "\<forall>x \<in> set (pd_values registry_case). \<forall>q. d_path x = Some q \<longrightarrow>
             is_dependency_embedded files_case q (PStr ''jei'') \<noteq> Inr True"
    by (simp add: pd_values_def registry_case_def case_probes)
  from t case_export m i nk n
  have "(if truthy (PBool True) then EdgeRed (PStr ''user'') (PStr ''jei'')
         else EdgeYellow (PStr ''user'') (PStr ''jei'')) \<in> set ?lines"
    by blast
  then have r: "EdgeRed (PStr ''user'') (PStr ''jei'') \<in> set ?lines"
    by simp
  have f: "should_ignore (PStr ''Forge'') = should_ignore (PStr ''forge'')"
  proof -
    have lf: "lower ''Forge'' = ''forge''" by code_simp
    from installed_test_is_case_sensitive[of "''Forge''" "[]" files_case
      "PStr ''user''" "PBool True" "\<lparr>missing_required = [], missing_optional = [], out = []\<rparr>"
      "''mods/jei.jar''"]
    have "should_ignore (PStr ''Forge'') = should_ignore (PStr (lower ''Forge''))"
      by blast
    then show ?thesis unfolding lf .
  qed
  from case_scan k l case_export r f show ?thesis by blast
qed

end
